theory Spec2Isabelle
  imports Complex_Main "HOL-Library.Word" "HOL-Library.Multiset"
begin

unbundle bit_operations_syntax

section \<open>Values, points and clouds\<close>

text \<open>
  The Python code computes on IEEE floating-point numbers.  They are modelled as exact
  rationals extended with the special values a computation of the source can meet: the
  not-a-number value (which \<^verbatim>\<open>skip_nans\<close> filters and \<^verbatim>\<open>0.0 / 0.0\<close> produces) and the two
  infinities.  Rounding is not modelled.
\<close>

datatype pyfloat = NaN | PInf | NInf | Fin rat

fun isnan :: "pyfloat \<Rightarrow> bool" where
  "isnan NaN = True"
| "isnan _ = False"

text \<open>
  The colour of a point is one 32-bit float field whose bit pattern packs the three
  channels; the field is kept as its bit pattern.  A bit pattern is a NaN when the
  eight exponent bits are all set and the 23 mantissa bits are not all zero.
\<close>

definition isnan32 :: "32 word \<Rightarrow> bool" where
  "isnan32 w = (drop_bit 23 w AND 0xFF = 0xFF \<and> w AND 0x7FFFFF \<noteq> 0)"

text \<open>A point of an XYZRGB cloud, with the fields \<^verbatim>\<open>read_points\<close> yields: (X, Y, Z, RGB as float).\<close>

record point =
  pt_x :: pyfloat
  pt_y :: pyfloat
  pt_z :: pyfloat
  pt_rgb :: "32 word"

text \<open>A point of a normals cloud, with the three fields the source reads.\<close>

record normal =
  normal_x :: pyfloat
  normal_y :: pyfloat
  normal_z :: pyfloat

section \<open>Library functions used by features.py\<close>

text \<open>
  \<^verbatim>\<open>pc2.read_points(cloud, skip_nans=True)\<close>: the points of the cloud in order, without
  those that have a NaN in one of the fields that are read (all four fields of a colour
  cloud; the three named fields of a normals cloud).
\<close>

definition point_has_nan :: "point \<Rightarrow> bool" where
  "point_has_nan p = (isnan (pt_x p) \<or> isnan (pt_y p) \<or> isnan (pt_z p) \<or> isnan32 (pt_rgb p))"

definition normal_has_nan :: "normal \<Rightarrow> bool" where
  "normal_has_nan n = (isnan (normal_x n) \<or> isnan (normal_y n) \<or> isnan (normal_z n))"

definition read_points :: "point list \<Rightarrow> point list" where
  "read_points cloud = filter (\<lambda>p. \<not> point_has_nan p) cloud"

definition read_points_normals :: "normal list \<Rightarrow> normal list" where
  "read_points_normals normal_cloud = filter (\<lambda>n. \<not> normal_has_nan n) normal_cloud"

text \<open>
  Modelled from the spec: \<^verbatim>\<open>float_to_rgb\<close> of \<^verbatim>\<open>pcl_helper\<close> is not among the source files.
  The data model has the colour packed with channels 0--255 each, and the comment at its
  call site says it converts the RGB value packed as a float to a 3-element list of
  integers [0-255, 0-255, 0-255]: the red, green and blue bytes of the bit pattern.
\<close>

definition float_to_rgb :: "32 word \<Rightarrow> nat \<times> nat \<times> nat" where
  "float_to_rgb float_rgb =
     (let pack = float_rgb;
          r = drop_bit 16 (pack AND 0x00FF0000);
          g = drop_bit 8 (pack AND 0x0000FF00);
          b = pack AND 0x000000FF
      in (unat r, unat g, unat b))"

text \<open>
  \<^verbatim>\<open>matplotlib.colors.rgb_to_hsv\<close> on one colour with channels in [0, 1].  The library
  writes the hue for "red is max", then "green is max", then "blue is max", so on a tie
  the later assignment stands.
\<close>

definition mpl_rgb_to_hsv :: "rat \<times> rat \<times> rat \<Rightarrow> rat \<times> rat \<times> rat" where
  "mpl_rgb_to_hsv arr =
     (case arr of (r, g, b) \<Rightarrow>
       let arr_max = max r (max g b);
           delta = arr_max - min r (min g b);
           s = (if arr_max > 0 then delta / arr_max else 0);
           h = (if delta > 0 \<and> b = arr_max then 4 + (r - g) / delta
                else if delta > 0 \<and> g = arr_max then 2 + (b - r) / delta
                else if delta > 0 \<and> r = arr_max then (g - b) / delta
                else 0)
       in (frac (h / 6), s, arr_max))"

text \<open>
  \<^verbatim>\<open>np.histogram(a, bins=n, range=(lo, hi))[0]\<close>: \<open>n\<close> equal-width bins over [lo, hi].  A
  value outside the range (or not a number) is not counted; bin \<open>i\<close> is half-open
  except the last, which includes \<open>hi\<close>.
\<close>

fun bin_index :: "nat \<Rightarrow> rat \<times> rat \<Rightarrow> pyfloat \<Rightarrow> nat option" where
  "bin_index bins (lo, hi) (Fin v) =
     (if lo \<le> v \<and> v \<le> hi
      then (let i = nat \<lfloor>(v - lo) / (hi - lo) * of_nat bins\<rfloor>
            in Some (if i = bins then bins - 1 else i))
      else None)"
| "bin_index bins (lo, hi) _ = None"

definition np_histogram :: "pyfloat list \<Rightarrow> nat \<Rightarrow> rat \<times> rat \<Rightarrow> nat list" where
  "np_histogram a bins rng =
     fold (\<lambda>v h. case bin_index bins rng v of None \<Rightarrow> h | Some i \<Rightarrow> h[i := h ! i + 1])
       a (replicate bins 0)"

text \<open>Float addition and \<^verbatim>\<open>np.sum\<close> over an array of floats.\<close>

fun fadd :: "pyfloat \<Rightarrow> pyfloat \<Rightarrow> pyfloat" where
  "fadd (Fin a) (Fin b) = Fin (a + b)"
| "fadd NaN _ = NaN"
| "fadd _ NaN = NaN"
| "fadd PInf NInf = NaN"
| "fadd NInf PInf = NaN"
| "fadd PInf _ = PInf"
| "fadd _ PInf = PInf"
| "fadd NInf _ = NInf"
| "fadd _ NInf = NInf"

definition np_sum :: "pyfloat list \<Rightarrow> pyfloat" where
  "np_sum a = fold (\<lambda>v acc. fadd acc v) a (Fin 0)"

text \<open>
  Division of one finite float by another as NumPy does it: no exception, \<open>0 / 0\<close> is
  NaN and a non-zero value over zero is an infinity.
\<close>

definition np_divide :: "rat \<Rightarrow> rat \<Rightarrow> pyfloat" where
  "np_divide a b =
     (if b = 0 then (if a = 0 then NaN else if a > 0 then PInf else NInf)
      else Fin (a / b))"

section \<open>features.py\<close>

definition rgb_to_hsv :: "nat \<times> nat \<times> nat \<Rightarrow> rat \<times> rat \<times> rat" where
  "rgb_to_hsv rgb_list =
     (case rgb_list of (r, g, b) \<Rightarrow>
       let rgb_normalized = (1 * of_nat r / 255, 1 * of_nat g / 255, 1 * of_nat b / 255);
           hsv_normalized = mpl_rgb_to_hsv rgb_normalized
       in hsv_normalized)"

text \<open>
  The colour of one point as appended to \<^verbatim>\<open>point_colors_list\<close>: the HSV triple times 255,
  or the RGB list itself.
\<close>

definition point_color :: "bool \<Rightarrow> point \<Rightarrow> rat \<times> rat \<times> rat" where
  "point_color using_hsv pnt =
     (let rgb_list = float_to_rgb (pt_rgb pnt)
      in if using_hsv
         then (case rgb_to_hsv rgb_list of (h, s, v) \<Rightarrow> (h * 255, s * 255, v * 255))
         else (case rgb_list of (r, g, b) \<Rightarrow> (of_nat r, of_nat g, of_nat b)))"

text \<open>
  The histogram counts before normalisation (\<^verbatim>\<open>hist_features\<close> as integers) and the
  normalisation \<^verbatim>\<open>hist_features / np.sum(hist_features)\<close>.
\<close>

definition normalize_hist :: "nat list \<Rightarrow> pyfloat list" where
  "normalize_hist counts =
     (let hist_features = map (\<lambda>c. (of_nat c :: rat)) counts;
          total = sum_list hist_features
      in map (\<lambda>c. np_divide c total) hist_features)"

definition color_hist_counts :: "point list \<Rightarrow> bool \<Rightarrow> nat list" where
  "color_hist_counts cloud using_hsv =
     (let point_colors_list = map (point_color using_hsv) (read_points cloud);
          channel_1_vals = map (\<lambda>color. Fin (fst color)) point_colors_list;
          channel_2_vals = map (\<lambda>color. Fin (fst (snd color))) point_colors_list;
          channel_3_vals = map (\<lambda>color. Fin (snd (snd color))) point_colors_list;
          ch_1_hist = np_histogram channel_1_vals 32 (0, 256);
          ch_2_hist = np_histogram channel_2_vals 32 (0, 256);
          ch_3_hist = np_histogram channel_3_vals 32 (0, 256)
      in ch_1_hist @ ch_2_hist @ ch_3_hist)"

text \<open>
  \<^verbatim>\<open>compute_color_histograms(cloud, using_hsv=True)\<close>: the optional argument is \<open>None\<close>
  when the caller leaves it out, and the default then applies.
\<close>

definition compute_color_histograms :: "point list \<Rightarrow> bool option \<Rightarrow> pyfloat list" where
  "compute_color_histograms cloud using_hsv_arg =
     (let using_hsv = (case using_hsv_arg of None \<Rightarrow> True | Some b \<Rightarrow> b)
      in normalize_hist (color_hist_counts cloud using_hsv))"

definition normal_hist_counts :: "normal list \<Rightarrow> nat list" where
  "normal_hist_counts normal_cloud =
     (let comps = read_points_normals normal_cloud;
          norm_x_vals = map normal_x comps;
          norm_y_vals = map normal_y comps;
          norm_z_vals = map normal_z comps;
          norm_x_hist = np_histogram norm_x_vals 20 (-1, 1);
          norm_y_hist = np_histogram norm_y_vals 20 (-1, 1);
          norm_z_hist = np_histogram norm_z_vals 20 (-1, 1)
      in norm_x_hist @ norm_y_hist @ norm_z_hist)"

definition compute_normal_histograms :: "normal list \<Rightarrow> pyfloat list" where
  "compute_normal_histograms normal_cloud = normalize_hist (normal_hist_counts normal_cloud)"

text \<open>
  The feature vector of one cluster, as \<^verbatim>\<open>pcl_callback\<close> of object_recognition.py builds
  it: colour histograms (always with \<^verbatim>\<open>using_hsv=True\<close>), the normals of the cluster
  from the \<^verbatim>\<open>get_normals\<close> service (a parameter), their histograms, and the concatenation.
\<close>

definition cluster_feature :: "(point list \<Rightarrow> normal list) \<Rightarrow> point list \<Rightarrow> pyfloat list" where
  "cluster_feature get_normals ros_cluster =
     (let chists = compute_color_histograms ros_cluster (Some True);
          normals = get_normals ros_cluster;
          nhists = compute_normal_histograms normals
      in chists @ nhists)"

section \<open>Specification-side notions for the feature vector\<close>

text \<open>
  Bin \<open>i\<close> of \<open>bins\<close> equal-width bins over [lo, hi]: half-open, except that the last
  bin also holds \<open>hi\<close>.
\<close>

definition in_bin :: "nat \<Rightarrow> rat \<Rightarrow> rat \<Rightarrow> nat \<Rightarrow> pyfloat \<Rightarrow> bool" where
  "in_bin bins lo hi i v =
     (case v of
        Fin q \<Rightarrow> lo + of_nat i * ((hi - lo) / of_nat bins) \<le> q \<and>
                 (q < lo + (of_nat i + 1) * ((hi - lo) / of_nat bins) \<or> (i = bins - 1 \<and> q = hi))
      | _ \<Rightarrow> False)"

definition equal_width_histogram :: "pyfloat list \<Rightarrow> nat \<Rightarrow> rat \<Rightarrow> rat \<Rightarrow> nat list" where
  "equal_width_histogram a bins lo hi = map (\<lambda>i. length (filter (in_bin bins lo hi i) a)) [0..<bins]"

text \<open>A unit normal: three finite components whose squares sum to one.\<close>

definition unit_normal :: "normal \<Rightarrow> bool" where
  "unit_normal n =
     (case (normal_x n, normal_y n, normal_z n) of
        (Fin a, Fin b, Fin c) \<Rightarrow> a * a + b * b + c * c = 1
      | _ \<Rightarrow> False)"

text \<open>The three channel value lists of a cloud in hue/saturation/value mode.\<close>

definition color_channels :: "point list \<Rightarrow> pyfloat list \<times> pyfloat list \<times> pyfloat list" where
  "color_channels cloud =
     (let cols = map (point_color True) cloud
      in (map (\<lambda>c. Fin (fst c)) cols, map (\<lambda>c. Fin (fst (snd c))) cols, map (\<lambda>c. Fin (snd (snd c))) cols))"

text \<open>Concrete points and normals used as test inputs.\<close>

definition red_point :: point where
  "red_point = \<lparr>pt_x = Fin 0, pt_y = Fin 0, pt_z = Fin 1, pt_rgb = 0x00FF0000\<rparr>"

definition nan_point :: point where
  "nan_point = \<lparr>pt_x = NaN, pt_y = Fin 0, pt_z = Fin 1, pt_rgb = 0x00FF0000\<rparr>"

definition up_normal :: normal where
  "up_normal = \<lparr>normal_x = Fin 0, normal_y = Fin 0, normal_z = Fin 1\<rparr>"

definition nan_normal :: normal where
  "nan_normal = \<lparr>normal_x = NaN, normal_y = NaN, normal_z = NaN\<rparr>"

section \<open>The point-cloud library stages called by the pipeline scripts\<close>

text \<open>
  RANSAC.py, segmentation.py and object_recognition.py call the stages of the point-cloud
  library (voxel grid, pass-through, plane segmentation, index extraction, Euclidean
  clustering); the library is not among the source files.  Each stage below is modelled
  from its section of the specification, on exact rational coordinates.
\<close>

type_synonym cloud = "point list"
type_synonym vec3 = "rat \<times> rat \<times> rat"

text \<open>The position of a point when its three coordinates are finite numbers.\<close>

definition position :: "point \<Rightarrow> vec3 option" where
  "position p =
     (case (pt_x p, pt_y p, pt_z p) of
        (Fin a, Fin b, Fin c) \<Rightarrow> Some (a, b, c)
      | _ \<Rightarrow> None)"

definition vsub :: "vec3 \<Rightarrow> vec3 \<Rightarrow> vec3" where
  "vsub p q = (case (p, q) of ((a, b, c), (d, e, f)) \<Rightarrow> (a - d, b - e, c - f))"

definition dot :: "vec3 \<Rightarrow> vec3 \<Rightarrow> rat" where
  "dot p q = (case (p, q) of ((a, b, c), (d, e, f)) \<Rightarrow> a * d + b * e + c * f)"

definition cross :: "vec3 \<Rightarrow> vec3 \<Rightarrow> vec3" where
  "cross p q = (case (p, q) of ((a, b, c), (d, e, f)) \<Rightarrow> (b * f - c * e, c * d - a * f, a * e - b * d))"

subsection \<open>Downsampler (voxel grid filter)\<close>

text \<open>
  Modelled from the spec: the voxel grid filter (section 4.1).  The bounding box minimum
  anchors a grid of cubes of side \<open>L\<close>; a point's cube is \<open>floor((p - min) / L)\<close> per axis;
  every non-empty cube emits the mean position and the mean colour, each channel rounded
  to the nearest integer.  Cubes are emitted in the order of their first point; points
  without a finite position are left out.
\<close>

definition finite_points :: "cloud \<Rightarrow> (vec3 \<times> 32 word) list" where
  "finite_points cloud =
     List.map_filter (\<lambda>p. case position p of None \<Rightarrow> None | Some v \<Rightarrow> Some (v, pt_rgb p)) cloud"

definition bbox_min :: "vec3 list \<Rightarrow> vec3" where
  "bbox_min ps =
     (case ps of
        [] \<Rightarrow> (0, 0, 0)
      | p # qs \<Rightarrow> fold (\<lambda>q m. case (q, m) of ((a, b, c), (d, e, f)) \<Rightarrow> (min a d, min b e, min c f)) qs p)"

definition voxel_key :: "rat \<Rightarrow> vec3 \<Rightarrow> vec3 \<Rightarrow> int \<times> int \<times> int" where
  "voxel_key L mn p =
     (case vsub p mn of (a, b, c) \<Rightarrow> (\<lfloor>a / L\<rfloor>, \<lfloor>b / L\<rfloor>, \<lfloor>c / L\<rfloor>))"

definition mean :: "rat list \<Rightarrow> rat" where
  "mean xs = sum_list xs / of_nat (length xs)"

text \<open>
  Modelled from the spec: \<^verbatim>\<open>rgb_to_float\<close> of \<^verbatim>\<open>pcl_helper\<close> is not among the source files; it
  packs three channels 0--255 into the colour field, the inverse of \<^verbatim>\<open>float_to_rgb\<close>.
\<close>

definition rgb_to_float :: "nat \<times> nat \<times> nat \<Rightarrow> 32 word" where
  "rgb_to_float color =
     (case color of (r, g, b) \<Rightarrow>
        push_bit 16 (of_nat r AND 0xFF) OR push_bit 8 (of_nat g AND 0xFF) OR (of_nat b AND 0xFF))"

definition centroid :: "(vec3 \<times> 32 word) list \<Rightarrow> point" where
  "centroid grp =
     (let ps = map fst grp;
          cs = map (\<lambda>g. float_to_rgb (snd g)) grp;
          chan = (\<lambda>f. nat (round (mean (map (\<lambda>c. of_nat (f c)) cs))))
      in \<lparr>pt_x = Fin (mean (map fst ps)),
          pt_y = Fin (mean (map (\<lambda>p. fst (snd p)) ps)),
          pt_z = Fin (mean (map (\<lambda>p. snd (snd p)) ps)),
          pt_rgb = rgb_to_float (chan fst, chan (\<lambda>c. fst (snd c)), chan (\<lambda>c. snd (snd c)))\<rparr>)"

definition voxel_grid_filter :: "rat \<Rightarrow> cloud \<Rightarrow> cloud" where
  "voxel_grid_filter L cloud =
     (let pts = finite_points cloud;
          mn = bbox_min (map fst pts);
          key = (\<lambda>g. voxel_key L mn (fst g));
          keys = remdups (map key pts)
      in map (\<lambda>k. centroid (filter (\<lambda>g. key g = k) pts)) keys)"

subsection \<open>RegionCropper (pass-through filter)\<close>

datatype axis = AxisX | AxisY | AxisZ

fun coord :: "axis \<Rightarrow> point \<Rightarrow> pyfloat" where
  "coord AxisX p = pt_x p"
| "coord AxisY p = pt_y p"
| "coord AxisZ p = pt_z p"

text \<open>
  Modelled from the spec: the pass-through filter (section 4.2) keeps, in order, the
  points whose coordinate on the axis lies in the inclusive interval.
\<close>

definition in_limits :: "rat \<Rightarrow> rat \<Rightarrow> pyfloat \<Rightarrow> bool" where
  "in_limits axis_min axis_max v =
     (case v of Fin q \<Rightarrow> axis_min \<le> q \<and> q \<le> axis_max | _ \<Rightarrow> False)"

definition passthrough_filter :: "axis \<Rightarrow> rat \<Rightarrow> rat \<Rightarrow> cloud \<Rightarrow> cloud" where
  "passthrough_filter filter_axis axis_min axis_max cloud =
     filter (\<lambda>p. in_limits axis_min axis_max (coord filter_axis p)) cloud"

subsection \<open>PlaneSegmenter (RANSAC plane fitting)\<close>

text \<open>
  Modelled from the spec: RANSAC plane fitting (section 4.3).  The pseudo-random source
  is the list of index triples it draws, one per trial.  A plane is kept by the
  coefficients (a, b, c, d) of its equation with the normal not normalised, and the
  test \<open>|n.p + d| \<le> tau\<close> for the unit normal is made in its squared form
  \<open>(n.p + d)\<^sup>2 \<le> tau\<^sup>2 (n.n)\<close>, which needs no square root.  A triple is degenerate when
  the squared length of the cross product is at most \<open>eps\<close>; a degenerate triple (or one
  that names a point the cloud does not have) is skipped.
\<close>

type_synonym plane = "rat \<times> rat \<times> rat \<times> rat"

definition plane_through :: "rat \<Rightarrow> vec3 \<Rightarrow> vec3 \<Rightarrow> vec3 \<Rightarrow> plane option" where
  "plane_through eps p1 p2 p3 =
     (let n = cross (vsub p2 p1) (vsub p3 p1)
      in if dot n n \<le> eps then None
         else (case n of (a, b, c) \<Rightarrow> Some (a, b, c, - dot n p1)))"

definition within_plane :: "plane \<Rightarrow> rat \<Rightarrow> point \<Rightarrow> bool" where
  "within_plane m tau p =
     (case (m, position p) of
        ((a, b, c, d), Some q) \<Rightarrow>
          (dot (a, b, c) q + d) * (dot (a, b, c) q + d) \<le> tau * tau * dot (a, b, c) (a, b, c)
      | _ \<Rightarrow> False)"

definition plane_inliers :: "cloud \<Rightarrow> plane \<Rightarrow> rat \<Rightarrow> nat list" where
  "plane_inliers cloud m tau = filter (\<lambda>i. within_plane m tau (cloud ! i)) [0..<length cloud]"

definition sample_plane :: "cloud \<Rightarrow> rat \<Rightarrow> nat \<times> nat \<times> nat \<Rightarrow> plane option" where
  "sample_plane cloud eps t =
     (case t of (i, j, k) \<Rightarrow>
        if i < length cloud \<and> j < length cloud \<and> k < length cloud
        then (case (position (cloud ! i), position (cloud ! j), position (cloud ! k)) of
                (Some p1, Some p2, Some p3) \<Rightarrow> plane_through eps p1 p2 p3
              | _ \<Rightarrow> None)
        else None)"

fun ransac :: "cloud \<Rightarrow> rat \<Rightarrow> rat \<Rightarrow> (nat \<times> nat \<times> nat) list \<Rightarrow> (plane \<times> nat list) option
    \<Rightarrow> (plane \<times> nat list) option" where
  "ransac cloud tau eps [] best = best"
| "ransac cloud tau eps (t # trials) best =
     (case sample_plane cloud eps t of
        None \<Rightarrow> ransac cloud tau eps trials best
      | Some m \<Rightarrow>
          (let inl = plane_inliers cloud m tau
           in ransac cloud tau eps trials
                (case best of
                   None \<Rightarrow> Some (m, inl)
                 | Some (bm, binl) \<Rightarrow> if length binl < length inl then Some (m, inl) else best)))"

text \<open>
  Modelled from the spec: \<^verbatim>\<open>seg.segment()\<close> of the library is not among the source files.
  The scripts unpack its result as the pair (inliers, coefficients): the inlier indices and
  the coefficients of the best model of section 4.3.  The call raises no exception: where
  section 4.3 speaks of the failure to find a model, the library reports it on its log and
  returns both lists empty.
\<close>

definition segment :: "cloud \<Rightarrow> rat \<Rightarrow> rat \<Rightarrow> (nat \<times> nat \<times> nat) list \<Rightarrow> nat list \<times> rat list" where
  "segment cloud max_distance eps trials =
     (case ransac cloud max_distance eps trials None of
        None \<Rightarrow> ([], [])
      | Some ((a, b, c, d), inl) \<Rightarrow> (inl, [a, b, c, d]))"

text \<open>
  Modelled from the spec: \<^verbatim>\<open>cloud.extract(indices, negative)\<close> of the library is not among
  the source files.  It yields the points at the given indices, or with \<^verbatim>\<open>negative=True\<close>
  the points at all other indices (the complement index set of section 4.3), in cloud
  order.
\<close>

definition extract_indices :: "cloud \<Rightarrow> nat list \<Rightarrow> bool \<Rightarrow> cloud" where
  "extract_indices cloud indices negative =
     (if negative
      then map (\<lambda>i. cloud ! i) (filter (\<lambda>i. i \<notin> set indices) [0..<length cloud])
      else map (\<lambda>i. cloud ! i) (filter (\<lambda>i. i < length cloud) indices))"

subsection \<open>SpatialClusterer (Euclidean cluster extraction)\<close>

text \<open>
  Modelled from the spec: radius-based region growing (section 4.4).  Only positions are
  used.  The radius query returns the indices of all points within \<open>r\<close> of the query point
  (the spatial index only speeds this up).  A cluster is grown from each unvisited index
  in increasing order by a work queue; the seed belongs to its cluster, so that a cluster
  is a connected component of the within-radius relation.  A cluster whose size is outside
  the bounds is dropped and its points stay visited.
\<close>

type_synonym xyz = "pyfloat \<times> pyfloat \<times> pyfloat"

definition XYZRGB_to_XYZ :: "cloud \<Rightarrow> xyz list" where
  "XYZRGB_to_XYZ XYZRGB_cloud = map (\<lambda>p. (pt_x p, pt_y p, pt_z p)) XYZRGB_cloud"

definition within_radius :: "rat \<Rightarrow> xyz \<Rightarrow> xyz \<Rightarrow> bool" where
  "within_radius r p q =
     (case (p, q) of
        ((Fin a, Fin b, Fin c), (Fin d, Fin e, Fin f)) \<Rightarrow>
          dot (vsub (a, b, c) (d, e, f)) (vsub (a, b, c) (d, e, f)) \<le> r * r
      | _ \<Rightarrow> False)"

definition radius_search :: "xyz list \<Rightarrow> rat \<Rightarrow> nat \<Rightarrow> nat list" where
  "radius_search white_cloud r i =
     (if i < length white_cloud
      then filter (\<lambda>j. within_radius r (white_cloud ! i) (white_cloud ! j)) [0..<length white_cloud]
      else [])"

function grow :: "xyz list \<Rightarrow> rat \<Rightarrow> nat list \<Rightarrow> nat set \<Rightarrow> nat list \<Rightarrow> nat list \<times> nat set" where
  "grow white_cloud r [] visited cluster = (cluster, visited)"
| "grow white_cloud r (q # queue) visited cluster =
     (let new = filter (\<lambda>j. j \<notin> visited) (radius_search white_cloud r q)
      in grow white_cloud r (queue @ new) (visited \<union> set new) (cluster @ new))"
  by pat_completeness auto
termination
proof (relation "measures [\<lambda>(c, r, q, v, cl). card ({..<length c} - v), \<lambda>(c, r, q, v, cl). length q]")
  show "wf (measures [\<lambda>(c, r, q, v, cl). card ({..<length c} - v), \<lambda>(c, r, q, v, cl). length q])"
    by simp
next
  fix white_cloud :: "xyz list" and r :: rat and q :: nat and queue :: "nat list"
    and visited :: "nat set" and cluster :: "nat list" and new :: "nat list"
  assume new: "new = filter (\<lambda>j. j \<notin> visited) (radius_search white_cloud r q)"
  have sub: "set new \<subseteq> {..<length white_cloud} - visited"
    by (auto simp: new radius_search_def)
  show "((white_cloud, r, queue @ new, visited \<union> set new, cluster @ new),
         (white_cloud, r, q # queue, visited, cluster))
        \<in> measures [\<lambda>(c, r, q, v, cl). card ({..<length c} - v), \<lambda>(c, r, q, v, cl). length q]"
  proof (cases "new = []")
    case True
    then show ?thesis by simp
  next
    case False
    then obtain j where j: "j \<in> set new" by (cases new) auto
    have "{..<length white_cloud} - (visited \<union> set new) \<subset> {..<length white_cloud} - visited"
      using sub j by auto
    then have "card ({..<length white_cloud} - (visited \<union> set new)) < card ({..<length white_cloud} - visited)"
      by (intro psubset_card_mono) simp_all
    then show ?thesis by simp
  qed
qed

definition cluster_step :: "xyz list \<Rightarrow> rat \<Rightarrow> nat \<Rightarrow> nat \<Rightarrow> nat \<Rightarrow> nat list list \<times> nat set
    \<Rightarrow> nat list list \<times> nat set" where
  "cluster_step white_cloud r m_min m_max i st =
     (case st of (clusters, visited) \<Rightarrow>
        if i \<in> visited then (clusters, visited)
        else (case grow white_cloud r [i] (insert i visited) [i] of
                (cluster, visited') \<Rightarrow>
                  (if m_min \<le> length cluster \<and> length cluster \<le> m_max
                   then clusters @ [cluster] else clusters, visited')))"

definition euclidean_cluster_extract :: "xyz list \<Rightarrow> rat \<Rightarrow> nat \<Rightarrow> nat \<Rightarrow> nat list list" where
  "euclidean_cluster_extract white_cloud r m_min m_max =
     fst (fold (cluster_step white_cloud r m_min m_max) [0..<length white_cloud] ([], {}))"

section \<open>segmentation.py and object_recognition.py\<close>

text \<open>
  Modelled from the spec: \<^verbatim>\<open>ros_to_pcl\<close> and \<^verbatim>\<open>pcl_to_ros\<close> of \<^verbatim>\<open>pcl_helper\<close> are not among the
  source files; they convert between the message and the cloud form of the same points
  (message transport is outside the core), and a cloud and its message are both the list
  of its points here.
\<close>

definition ros_to_pcl :: "cloud \<Rightarrow> cloud" where
  "ros_to_pcl ros_cloud = ros_cloud"

definition pcl_to_ros :: "cloud \<Rightarrow> cloud" where
  "pcl_to_ros pcl_array = pcl_array"

text \<open>
  The part both callbacks share (segmentation.py lines 9--133, object_recognition.py
  lines 24--154): voxel grid with leaf size 0.01, pass-through on z in [0.77, 1.1], plane
  segmentation with distance threshold 0.01, extraction of the table (inliers) and the
  objects (outliers), and clustering of the objects with tolerance 0.02 and cluster size
  10 to 2000.  The segmenter is created without any seed or random source argument; the
  draws of the library's generator are the parameter \<open>trials\<close>.
\<close>

record scene =
  sc_table :: cloud
  sc_objects :: cloud
  sc_white :: "xyz list"
  sc_clusters :: "nat list list"

definition segment_scene :: "(nat \<times> nat \<times> nat) list \<Rightarrow> rat \<Rightarrow> cloud \<Rightarrow> scene" where
  "segment_scene trials eps pcl_msg =
     (let cloud = ros_to_pcl pcl_msg;
          LEAF_SIZE = 1 / 100;
          cloud_filtered = voxel_grid_filter LEAF_SIZE cloud;
          axis_min = 77 / 100;
          axis_max = 11 / 10;
          cloud_filtered = passthrough_filter AxisZ axis_min axis_max cloud_filtered;
          max_distance = 1 / 100;
          seg = segment cloud_filtered max_distance eps trials;
          inliers = fst seg;
          extracted_inliers = extract_indices cloud_filtered inliers False;
          cloud_table = extracted_inliers;
          extracted_outliers = extract_indices cloud_filtered inliers True;
          cloud_objects = extracted_outliers;
          white_cloud = XYZRGB_to_XYZ cloud_objects;
          cluster_indices = euclidean_cluster_extract white_cloud (2 / 100) 10 2000
      in \<lparr>sc_table = cloud_table, sc_objects = cloud_objects, sc_white = white_cloud,
          sc_clusters = cluster_indices\<rparr>)"

text \<open>
  Modelled from the spec: \<^verbatim>\<open>get_color_list\<close> of \<^verbatim>\<open>pcl_helper\<close> is not among the source files.
  The scripts initialise its attribute \<^verbatim>\<open>get_color_list.color_list = []\<close> once, before the
  first frame, and call \<^verbatim>\<open>get_color_list(len(cluster_indices))\<close> in every frame; section 9
  describes it as a growing palette of cluster colours reused across frames.  The list is
  extended by newly generated colours up to the requested count and returned; the
  returned list is the attribute's value after the call.  \<open>random_color_gen i\<close> stands
  for the colour generated for position \<open>i\<close>.
\<close>

type_synonym color = "nat \<times> nat \<times> nat"

definition get_color_list :: "(nat \<Rightarrow> color) \<Rightarrow> nat \<Rightarrow> color list \<Rightarrow> color list" where
  "get_color_list random_color_gen cluster_count color_list =
     (if cluster_count > length color_list
      then color_list @ map random_color_gen [length color_list..<cluster_count]
      else color_list)"

text \<open>The cluster-mask cloud: every point of cluster \<open>j\<close> with colour \<open>cluster_color[j]\<close>.\<close>

definition color_cluster_points :: "xyz list \<Rightarrow> nat list list \<Rightarrow> color list \<Rightarrow> cloud" where
  "color_cluster_points white_cloud cluster_indices cluster_color =
     concat (map (\<lambda>(j, indices).
               map (\<lambda>indice. \<lparr>pt_x = fst (white_cloud ! indice),
                                pt_y = fst (snd (white_cloud ! indice)),
                                pt_z = snd (snd (white_cloud ! indice)),
                                pt_rgb = rgb_to_float (cluster_color ! j)\<rparr>) indices)
            (enumerate 0 cluster_indices))"

record published =
  pcl_objects :: cloud
  pcl_table :: cloud
  pcl_cluster :: cloud

text \<open>
  \<^verbatim>\<open>pcl_callback\<close> of segmentation.py.  The result is what the callback publishes on its
  three topics, and the value of \<^verbatim>\<open>get_color_list.color_list\<close> after the call.
\<close>

definition pcl_callback :: "(nat \<Rightarrow> color) \<Rightarrow> (nat \<times> nat \<times> nat) list \<Rightarrow> rat \<Rightarrow> color list \<Rightarrow> cloud
    \<Rightarrow> published \<times> color list" where
  "pcl_callback random_color_gen trials eps color_list pcl_msg =
     (let sc = segment_scene trials eps pcl_msg;
          cluster_color = get_color_list random_color_gen (length (sc_clusters sc)) color_list;
          cluster_cloud = color_cluster_points (sc_white sc) (sc_clusters sc) cluster_color;
          ros_cloud_objects = pcl_to_ros (sc_objects sc);
          ros_cloud_table = pcl_to_ros (sc_table sc);
          ros_cluster_cloud = pcl_to_ros cluster_cloud
      in (\<lparr>pcl_objects = ros_cloud_objects, pcl_table = ros_cloud_table,
            pcl_cluster = ros_cluster_cloud\<rparr>, cluster_color))"

text \<open>
  \<^verbatim>\<open>pcl_callback\<close> of object_recognition.py: the same, followed by the classification of
  every cluster.  The normals service and the trained classifier (scaler, classifier and
  label encoder) are parameters.  A detected object is its label and its cluster cloud; a
  marker is the label, its position (the first point of the cluster, raised by 0.4) and
  the cluster's number.  Every cluster has at least ten indices, so the first exists.
\<close>

record published_objects = published +
  object_markers :: "(string \<times> xyz \<times> nat) list"
  detected_objects :: "(string \<times> cloud) list"

definition detect_object :: "(cloud \<Rightarrow> normal list) \<Rightarrow> (pyfloat list \<Rightarrow> string) \<Rightarrow> scene
    \<Rightarrow> nat \<times> nat list \<Rightarrow> (string \<times> xyz \<times> nat) \<times> (string \<times> cloud)" where
  "detect_object get_normals classify sc item =
     (case item of (index, pts_list) \<Rightarrow>
        let pcl_cluster = extract_indices (sc_objects sc) pts_list False;
            ros_cluster = pcl_to_ros pcl_cluster;
            feature = cluster_feature get_normals ros_cluster;
            label = classify feature;
            label_pos = (case sc_white sc ! (pts_list ! 0) of (a, b, c) \<Rightarrow> (a, b, fadd c (Fin (4 / 10))))
        in ((label, label_pos, index), (label, ros_cluster)))"

definition pcl_callback_recognition :: "(cloud \<Rightarrow> normal list) \<Rightarrow> (pyfloat list \<Rightarrow> string)
    \<Rightarrow> (nat \<Rightarrow> color) \<Rightarrow> (nat \<times> nat \<times> nat) list \<Rightarrow> rat \<Rightarrow> color list \<Rightarrow> cloud
    \<Rightarrow> published_objects \<times> color list" where
  "pcl_callback_recognition get_normals classify random_color_gen trials eps color_list pcl_msg =
     (let sc = segment_scene trials eps pcl_msg;
          cluster_color = get_color_list random_color_gen (length (sc_clusters sc)) color_list;
          cluster_cloud = color_cluster_points (sc_white sc) (sc_clusters sc) cluster_color;
          ros_cloud_objects = pcl_to_ros (sc_objects sc);
          ros_cloud_table = pcl_to_ros (sc_table sc);
          ros_cluster_cloud = pcl_to_ros cluster_cloud;
          detected = map (detect_object get_normals classify sc) (enumerate 0 (sc_clusters sc))
      in (\<lparr>pcl_objects = ros_cloud_objects, pcl_table = ros_cloud_table,
            pcl_cluster = ros_cluster_cloud, object_markers = map fst detected,
            detected_objects = map snd detected\<rparr>, cluster_color))"

section \<open>Invariants and test inputs for the pipeline\<close>

text \<open>
  The invariant of the clustering loop over a cloud of \<open>n\<close> points: the clusters found so
  far are pairwise disjoint lists without repetition, every clustered index is marked
  visited, only indices of the cloud are visited, and every cluster is within the size
  bounds.
\<close>

definition clusters_ok :: "nat \<Rightarrow> nat \<Rightarrow> nat \<Rightarrow> nat list list \<times> nat set \<Rightarrow> bool" where
  "clusters_ok n m_min m_max st =
     (case st of (clusters, visited) \<Rightarrow>
        distinct (concat clusters) \<and> set (concat clusters) \<subseteq> visited \<and> visited \<subseteq> {..<n}
        \<and> list_all (\<lambda>c. m_min \<le> length c \<and> length c \<le> m_max) clusters)"


text \<open>Two pairs of neighbouring points and one isolated point.\<close>

definition two_pairs :: "xyz list" where
  "two_pairs = [(Fin 0, Fin 0, Fin 0), (Fin (1 / 100), Fin 0, Fin 0), (Fin 1, Fin 0, Fin 0),
                (Fin 1, Fin (1 / 100), Fin 0), (Fin 5, Fin 5, Fin 5)]"



text \<open>
  Frames of points on one line at height 0.9, spaced 0.015 apart: ten of them form one
  cluster; three of them are a degenerate scene for plane fitting.
\<close>

definition row_point :: "nat \<Rightarrow> point" where
  "row_point k = \<lparr>pt_x = Fin (of_nat k * 3 / 200), pt_y = Fin 0, pt_z = Fin (9 / 10), pt_rgb = 0x00FF0000\<rparr>"

definition row_frame :: cloud where
  "row_frame = map row_point [0..<10]"

definition collinear_frame :: cloud where
  "collinear_frame = map row_point [0..<3]"

section \<open>Verification\<close>

lemma length_hist_step:
  "length (fold (\<lambda>v h. case bin_index bins rng v of None \<Rightarrow> h | Some i \<Rightarrow> h[i := h ! i + 1]) a h0) = length h0"
  by (induction a arbitrary: h0) (auto split: option.splits)

lemma length_np_histogram: "length (np_histogram a bins rng) = bins"
  by (simp add: np_histogram_def length_hist_step)

lemma bin_index_less:
  assumes "bin_index bins (lo, hi) v = Some i" and "0 < bins" and "lo < hi"
  shows "i < bins"
proof (cases v)
  case (Fin q)
  with assms have inr: "lo \<le> q" "q \<le> hi" by (auto split: if_splits)
  define t where "t = (q - lo) / (hi - lo) * of_nat bins"
  have "(q - lo) / (hi - lo) \<le> 1" using inr assms(3) by (simp add: divide_le_eq)
  then have "t \<le> of_nat bins" unfolding t_def
    using inr assms(3) by (intro mult_left_le_one_le) simp_all
  then have "\<lfloor>t\<rfloor> \<le> int bins" by (simp add: floor_le_iff) 
  then have le: "nat \<lfloor>t\<rfloor> \<le> bins" by simp
  from assms(1) Fin inr have "i = (if nat \<lfloor>t\<rfloor> = bins then bins - 1 else nat \<lfloor>t\<rfloor>)"
    by (auto simp add: t_def Let_def)
  with le assms(2) show ?thesis by (auto split: if_splits)
qed (use assms in auto)

lemma sum_hist_step:
  assumes "0 < bins" "lo < hi" "length h0 = bins"
  shows "sum_list (fold (\<lambda>v h. case bin_index bins (lo, hi) v of None \<Rightarrow> h | Some i \<Rightarrow> h[i := h ! i + 1]) a h0)
       = sum_list h0 + length (filter (\<lambda>v. bin_index bins (lo, hi) v \<noteq> None) a)"
  using assms(3)
proof (induction a arbitrary: h0)
  case Nil then show ?case by simp
next
  case (Cons v a)
  show ?case
  proof (cases "bin_index bins (lo, hi) v")
    case None
    with Cons show ?thesis by simp
  next
    case (Some i)
    then have "i < bins" using bin_index_less assms by blast
    then have "sum_list (h0[i := h0 ! i + 1]) = sum_list h0 + 1"
      using Cons.prems by (simp add: sum_list_update)
    with Cons Some show ?thesis by simp
  qed
qed

lemma and_255_le: "unat ((w :: 32 word) AND 0xFF) \<le> 255"
proof -
  have "w AND 0xFF \<le> 0xFF" by (rule word_and_le1)
  then show ?thesis by (simp add: word_le_nat_alt)
qed

lemma float_to_rgb_range:
  assumes "float_to_rgb w = (r, g, b)"
  shows "r \<le> 255 \<and> g \<le> 255 \<and> b \<le> 255"
proof -
  have r: "drop_bit 16 (w AND 0x00FF0000) = drop_bit 16 w AND 0xFF" by simp
  have g: "drop_bit 8 (w AND 0x0000FF00) = drop_bit 8 w AND 0xFF" by simp
  from assms show ?thesis
    unfolding float_to_rgb_def Let_def r g
    using and_255_le[of "drop_bit 16 w"] and_255_le[of "drop_bit 8 w"] and_255_le[of w]
    by auto
qed

lemma mpl_rgb_to_hsv_range:
  assumes "0 \<le> r" "r \<le> 1" "0 \<le> g" "g \<le> 1" "0 \<le> b" "b \<le> 1"
    and "mpl_rgb_to_hsv (r, g, b) = (h, s, v)"
  shows "0 \<le> h \<and> h < 1 \<and> 0 \<le> s \<and> s \<le> 1 \<and> 0 \<le> v \<and> v \<le> 1"
proof -
  define m where "m = max r (max g b)"
  define d where "d = m - min r (min g b)"
  have m: "0 \<le> m" "m \<le> 1" using assms by (auto simp: m_def)
  have d: "0 \<le> d" "d \<le> m" using assms by (auto simp: d_def m_def)
  define X where "X = (if d > 0 \<and> b = m then 4 + (r - g) / d
                else if d > 0 \<and> g = m then 2 + (b - r) / d
                else if d > 0 \<and> r = m then (g - b) / d
                else 0)"
  have "mpl_rgb_to_hsv (r, g, b) = (frac (X / 6), (if m > 0 then d / m else 0), m)"
    unfolding mpl_rgb_to_hsv_def Let_def prod.case X_def d_def m_def by (rule refl)
  with assms(7) have "(h, s, v) = (frac (X / 6), (if m > 0 then d / m else 0), m)"
    by (rule trans[OF sym])
  then have h: "h = frac (X / 6)" and s: "s = (if m > 0 then d / m else 0)" and v: "v = m"
    by (simp_all only: prod.inject)
  have "0 \<le> s \<and> s \<le> 1" using m d by (auto simp: s divide_le_eq)
  moreover have "0 \<le> h \<and> h < 1" by (simp add: h frac_lt_1)
  ultimately show ?thesis using m v by simp
qed

lemma point_color_range:
  assumes "point_color u p = (c1, c2, c3)"
  shows "0 \<le> c1 \<and> c1 \<le> 255 \<and> 0 \<le> c2 \<and> c2 \<le> 255 \<and> 0 \<le> c3 \<and> c3 \<le> 255"
proof -
  obtain r g b where rgb: "float_to_rgb (pt_rgb p) = (r, g, b)" by (metis prod_cases3)
  from float_to_rgb_range[OF rgb] have le: "r \<le> 255" "g \<le> 255" "b \<le> 255" by auto
  show ?thesis
  proof (cases u)
    case False
    with assms rgb le show ?thesis by (auto simp: point_color_def)
  next
    case True
    obtain h s v where hsv: "mpl_rgb_to_hsv (of_nat r / 255, of_nat g / 255, of_nat b / 255) = (h, s, v)"
      by (metis prod_cases3)
    have "0 \<le> h \<and> h < 1 \<and> 0 \<le> s \<and> s \<le> 1 \<and> 0 \<le> v \<and> v \<le> 1"
      using le by (intro mpl_rgb_to_hsv_range[OF _ _ _ _ _ _ hsv]) simp_all
    moreover have "c1 = h * 255" "c2 = s * 255" "c3 = v * 255"
      using assms rgb hsv True by (auto simp: point_color_def rgb_to_hsv_def)
    ultimately show ?thesis by auto
  qed
qed

lemma sum_np_histogram:
  assumes "0 < bins" "lo < hi"
  shows "sum_list (np_histogram a bins (lo, hi)) = length (filter (\<lambda>v. bin_index bins (lo, hi) v \<noteq> None) a)"
  unfolding np_histogram_def using sum_hist_step[OF assms, of "replicate bins 0" a] by simp

lemma sum_np_histogram_all:
  assumes "0 < bins" "lo < hi" "\<forall>v\<in>set a. \<exists>q. v = Fin q \<and> lo \<le> q \<and> q \<le> hi"
  shows "sum_list (np_histogram a bins (lo, hi)) = length a"
proof -
  have "\<forall>v\<in>set a. bin_index bins (lo, hi) v \<noteq> None" using assms(3) by (auto simp: Let_def)
  then have "filter (\<lambda>v. bin_index bins (lo, hi) v \<noteq> None) a = a" by (simp add: filter_id_conv)
  then show ?thesis using sum_np_histogram[OF assms(1,2), of a] by simp
qed

lemma length_color_hist_counts: "length (color_hist_counts cloud u) = 96"
  by (simp add: color_hist_counts_def Let_def length_np_histogram)

lemma length_normal_hist_counts: "length (normal_hist_counts ncloud) = 60"
  by (simp add: normal_hist_counts_def Let_def length_np_histogram)

lemma sum_color_hist_counts:
  "sum_list (color_hist_counts cloud u) = 3 * length (read_points cloud)"
proof -
  let ?cs = "map (point_color u) (read_points cloud)"
  have r: "\<And>c. 0 \<le> fst (point_color u c) \<and> fst (point_color u c) \<le> 256
      \<and> 0 \<le> fst (snd (point_color u c)) \<and> fst (snd (point_color u c)) \<le> 256
      \<and> 0 \<le> snd (snd (point_color u c)) \<and> snd (snd (point_color u c)) \<le> 256"
  proof -
    fix c
    obtain c1 c2 c3 where e: "point_color u c = (c1, c2, c3)" by (metis prod_cases3)
    from point_color_range[OF e] show "?thesis c" by (simp add: e)
  qed
  have 1: "sum_list (np_histogram (map (\<lambda>color. Fin (fst color)) ?cs) 32 (0, 256)) = length (read_points cloud)"
    using r by (subst sum_np_histogram_all) auto
  have 2: "sum_list (np_histogram (map (\<lambda>color. Fin (fst (snd color))) ?cs) 32 (0, 256)) = length (read_points cloud)"
    using r by (subst sum_np_histogram_all) auto
  have 3: "sum_list (np_histogram (map (\<lambda>color. Fin (snd (snd color))) ?cs) 32 (0, 256)) = length (read_points cloud)"
    using r by (subst sum_np_histogram_all) auto
  show ?thesis unfolding color_hist_counts_def Let_def sum_list_append 1 2 3 by simp
qed

lemma np_sum_fold: "fold (\<lambda>v acc. fadd acc v) (map Fin qs) (Fin a) = Fin (a + sum_list qs)"
  by (induction qs arbitrary: a) (simp_all add: add.assoc)

lemma np_sum_Fin: "np_sum (map Fin qs) = Fin (sum_list qs)"
  by (simp add: np_sum_def np_sum_fold)

lemma length_normalize_hist: "length (normalize_hist counts) = length counts"
  by (simp add: normalize_hist_def Let_def)

lemma normalize_hist_pos:
  assumes "0 < sum_list counts"
  shows "normalize_hist counts = map (\<lambda>c. Fin (of_nat c / of_nat (sum_list counts))) counts"
proof -
  have "sum_list (map (\<lambda>c. (of_nat c :: rat)) counts) = of_nat (sum_list counts)"
    by (induction counts) simp_all
  moreover have "0 < (of_nat (sum_list counts) :: rat)" using assms by (simp only: of_nat_0_less_iff)
  then have "(of_nat (sum_list counts) :: rat) \<noteq> 0" by (rule less_imp_neq[THEN not_sym])
  moreover note this
  ultimately show ?thesis by (simp add: normalize_hist_def Let_def np_divide_def)
qed

lemma sum_list_map_divide:
  "sum_list (map (\<lambda>c. f c / t) xs) = sum_list (map f xs) / (t :: rat)"
  by (induction xs) (simp_all add: add_divide_distrib)

lemma np_sum_normalize_hist:
  assumes "0 < sum_list counts"
  shows "np_sum (normalize_hist counts) = Fin 1"
proof -
  let ?T = "of_nat (sum_list counts) :: rat"
  have "0 < ?T" using assms by (simp only: of_nat_0_less_iff)
  then have T: "?T \<noteq> 0" by (rule less_imp_neq[THEN not_sym])
  have "normalize_hist counts = map Fin (map (\<lambda>c. of_nat c / ?T) counts)"
    by (simp add: normalize_hist_pos[OF assms])
  then have "np_sum (normalize_hist counts) = Fin (sum_list (map (\<lambda>c. of_nat c / ?T) counts))"
    by (simp only: np_sum_Fin)
  also have "sum_list (map (\<lambda>c. of_nat c / ?T) counts) = sum_list (map (\<lambda>c. of_nat c) counts) / ?T"
    by (rule sum_list_map_divide)
  also have "sum_list (map (\<lambda>c. (of_nat c :: rat)) counts) = ?T"
    by (induction counts) simp_all
  finally show ?thesis using T by simp
qed

lemma normalize_hist_zero:
  assumes "sum_list counts = 0"
  shows "normalize_hist counts = replicate (length counts) NaN"
proof -
  have z: "\<forall>c\<in>set counts. c = 0" using assms by (induction counts) auto
  have "sum_list (map (\<lambda>c. (of_nat c :: rat)) counts) = 0" using z by (induction counts) auto
  then have "normalize_hist counts = map (\<lambda>c. np_divide (of_nat c) 0) counts"
    by (simp add: normalize_hist_def Let_def)
  also have "\<dots> = map (\<lambda>c. NaN) counts" using z by (intro map_cong) (auto simp: np_divide_def)
  finally show ?thesis by (simp add: map_replicate_const)
qed

lemma nth_hist_step:
  assumes "i < length h0"
  shows "fold (\<lambda>v h. case bin_index bins rng v of None \<Rightarrow> h | Some i \<Rightarrow> h[i := h ! i + 1]) a h0 ! i
       = h0 ! i + length (filter (\<lambda>v. bin_index bins rng v = Some i) a)"
  using assms
proof (induction a arbitrary: h0)
  case Nil then show ?case by simp
next
  case (Cons v a)
  show ?case
  proof (cases "bin_index bins rng v")
    case None
    with Cons show ?thesis by simp
  next
    case (Some j)
    have "fold (\<lambda>v h. case bin_index bins rng v of None \<Rightarrow> h | Some i \<Rightarrow> h[i := h ! i + 1]) a (h0[j := h0 ! j + 1]) ! i
        = (h0[j := h0 ! j + 1]) ! i + length (filter (\<lambda>v. bin_index bins rng v = Some i) a)"
      using Cons.prems by (intro Cons.IH) simp
    moreover have "(h0[j := h0 ! j + 1]) ! i = h0 ! i + (if j = i then 1 else 0)"
      using Cons.prems by (simp add: nth_list_update)
    ultimately show ?thesis using Some by simp
  qed
qed

lemma nth_np_histogram:
  assumes "i < bins"
  shows "np_histogram a bins rng ! i = length (filter (\<lambda>v. bin_index bins rng v = Some i) a)"
  unfolding np_histogram_def using nth_hist_step[of i "replicate bins 0" bins rng a] assms by simp

lemma bin_index_iff:
  assumes bins: "0 < bins" and lohi: "lo < hi" and i: "i < bins"
  shows "bin_index bins (lo, hi) (Fin q) = Some i \<longleftrightarrow>
     lo + of_nat i * ((hi - lo) / of_nat bins) \<le> q \<and>
     (q < lo + (of_nat i + 1) * ((hi - lo) / of_nat bins) \<or> (i = bins - 1 \<and> q = hi))"
    (is "?L \<longleftrightarrow> ?R")
proof -
  define w where "w = (hi - lo) / of_nat bins"
  define t where "t = (q - lo) / (hi - lo) * of_nat bins"
  have w: "0 < w" using bins lohi by (simp add: w_def)
  have bw: "of_nat bins * w = hi - lo" using bins by (simp add: w_def)
  have tw: "t = (q - lo) / w" using bins lohi by (simp add: t_def w_def)
  have le_t: "\<And>k :: rat. k \<le> t \<longleftrightarrow> lo + k * w \<le> q"
    using w by (auto simp: tw le_divide_eq algebra_simps)
  have t_less: "\<And>k :: rat. t < k \<longleftrightarrow> q < lo + k * w"
    using w by (auto simp: tw divide_less_eq algebra_simps)
  have t_le: "\<And>k :: rat. t \<le> k \<longleftrightarrow> q \<le> lo + k * w"
    using w by (auto simp: tw divide_le_eq algebra_simps)
  have hi_eq: "lo + of_nat bins * w = hi" using bw by simp
  have R: "?R \<longleftrightarrow> of_nat i \<le> t \<and> (t < of_nat i + 1 \<or> (i = bins - 1 \<and> q = hi))"
    unfolding le_t t_less w_def by simp
  show ?thesis
  proof (cases "lo \<le> q \<and> q \<le> hi")
    case False
    then have nL: "\<not> ?L" by auto
    have "\<not> ?R"
    proof
      assume r: ?R
      then have "of_nat i \<le> t" using R by simp
      then have "0 \<le> t" using of_nat_0_le_iff[of i, where 'a = rat] by linarith
      then have "lo \<le> q" using le_t[of 0] by simp
      moreover have "q \<le> hi"
      proof -
        from r R consider "t < of_nat i + 1" | "q = hi" by blast
        then show ?thesis
        proof cases
          case 1
          have "of_nat i + 1 \<le> (of_nat bins :: rat)" using i by (metis of_nat_Suc of_nat_le_iff Suc_leI add.commute)
          with 1 have "t < of_nat bins" by linarith
          then show ?thesis using t_less[of "of_nat bins"] hi_eq by simp
        next
          case 2 then show ?thesis by simp
        qed
      qed
      ultimately show False using False by simp
    qed
    with nL show ?thesis by blast
  next
    case True
    then have t0: "0 \<le> t" using le_t[of 0] by simp
    have tb: "t \<le> of_nat bins" using True t_le[of "of_nat bins"] hi_eq by simp
    have L: "?L \<longleftrightarrow> (if nat \<lfloor>t\<rfloor> = bins then bins - 1 else nat \<lfloor>t\<rfloor>) = i"
      using True by (simp add: t_def Let_def)
    have fl: "\<And>k. nat \<lfloor>t\<rfloor> = k \<longleftrightarrow> of_nat k \<le> t \<and> t < of_nat k + 1"
    proof -
      fix k :: nat
      have "nat \<lfloor>t\<rfloor> = k \<longleftrightarrow> \<lfloor>t\<rfloor> = int k" using t0 by (auto simp: nat_eq_iff)
      also have "\<dots> \<longleftrightarrow> of_int (int k) \<le> t \<and> t < of_int (int k) + 1" by (rule floor_eq_iff)
      finally show "nat \<lfloor>t\<rfloor> = k \<longleftrightarrow> of_nat k \<le> t \<and> t < of_nat k + 1" by simp
    qed
    have thi: "t = of_nat bins \<longleftrightarrow> q = hi"
      using le_t[of "of_nat bins"] t_le[of "of_nat bins"] hi_eq by (auto simp: order_eq_iff)
    show ?thesis
    proof (cases "q = hi")
      case qh: True
      then have "t = of_nat bins" using thi by simp
      then have "nat \<lfloor>t\<rfloor> = bins" by simp
      then have "?L \<longleftrightarrow> i = bins - 1" using L by auto
      moreover have "?R \<longleftrightarrow> i = bins - 1"
      proof
        assume ?R
        then have "t < of_nat i + 1 \<or> i = bins - 1" using R by blast
        moreover have "t < of_nat i + 1 \<Longrightarrow> False"
        proof -
          assume a: "t < of_nat i + 1"
          have "of_nat i + 1 \<le> (of_nat bins :: rat)" using i by (metis of_nat_Suc of_nat_le_iff Suc_leI add.commute)
          with a \<open>t = of_nat bins\<close> show False by simp
        qed
        ultimately show "i = bins - 1" by blast
      next
        assume e: "i = bins - 1"
        have "(of_nat i :: rat) \<le> of_nat bins" using i by simp
        then show ?R using R qh e \<open>t = of_nat bins\<close> by simp
      qed
      ultimately show ?thesis by simp
    next
      case qh: False
      then have "t \<noteq> of_nat bins" using thi by simp
      then have "nat \<lfloor>t\<rfloor> \<noteq> bins" using fl[of bins] tb by auto
      then have "?L \<longleftrightarrow> nat \<lfloor>t\<rfloor> = i" using L by simp
      also have "\<dots> \<longleftrightarrow> of_nat i \<le> t \<and> t < of_nat i + 1" by (rule fl)
      also have "\<dots> \<longleftrightarrow> ?R" using R qh by simp
      finally show ?thesis .
    qed
  qed
qed

lemma bin_index_in_bin:
  assumes "0 < bins" "lo < hi" "i < bins"
  shows "(bin_index bins (lo, hi) v = Some i) = in_bin bins lo hi i v"
proof (cases v)
  case (Fin q)
  then show ?thesis using bin_index_iff[OF assms, of q] by (simp add: in_bin_def)
qed (simp_all add: in_bin_def)

lemma np_histogram_equal_width:
  assumes "0 < bins" "lo < hi"
  shows "np_histogram a bins (lo, hi) = equal_width_histogram a bins lo hi"
proof (rule nth_equalityI)
  show "length (np_histogram a bins (lo, hi)) = length (equal_width_histogram a bins lo hi)"
    by (simp add: length_np_histogram equal_width_histogram_def)
next
  fix i assume "i < length (np_histogram a bins (lo, hi))"
  then have i: "i < bins" by (simp add: length_np_histogram)
  have "(\<lambda>v. bin_index bins (lo, hi) v = Some i) = in_bin bins lo hi i"
    using bin_index_in_bin[OF assms i] by auto
  then show "np_histogram a bins (lo, hi) ! i = equal_width_histogram a bins lo hi ! i"
    using i by (simp add: nth_np_histogram equal_width_histogram_def)
qed

lemma unit_normal_range:
  assumes "unit_normal n"
  shows "\<exists>a b c. normal_x n = Fin a \<and> normal_y n = Fin b \<and> normal_z n = Fin c
          \<and> -1 \<le> a \<and> a \<le> 1 \<and> -1 \<le> b \<and> b \<le> 1 \<and> -1 \<le> c \<and> c \<le> 1"
proof -
  from assms obtain a b c where f: "normal_x n = Fin a" "normal_y n = Fin b" "normal_z n = Fin c"
    and u: "a * a + b * b + c * c = 1"
    by (auto simp: unit_normal_def split: pyfloat.splits)
  have sq: "\<And>x y z :: rat. x * x + y * y + z * z = 1 \<Longrightarrow> -1 \<le> x \<and> x \<le> 1"
  proof -
    fix x y z :: rat assume "x * x + y * y + z * z = 1"
    moreover have "0 \<le> y * y" "0 \<le> z * z" by simp_all
    ultimately have "x * x \<le> 1" by linarith
    then have "x\<^sup>2 \<le> 1" by (simp add: power2_eq_square)
    then have "\<bar>x\<bar> \<le> 1" by (simp add: abs_square_le_1)
    then show "-1 \<le> x \<and> x \<le> 1" by (simp add: abs_le_iff)
  qed
  have "-1 \<le> a \<and> a \<le> 1" using sq[of a b c] u by simp
  moreover have "-1 \<le> b \<and> b \<le> 1" using sq[of b a c] u by (simp add: ac_simps)
  moreover have "-1 \<le> c \<and> c \<le> 1" using sq[of c a b] u by (simp add: ac_simps)
  ultimately show ?thesis using f by blast
qed

lemma unit_normal_no_nan: "unit_normal n \<Longrightarrow> \<not> normal_has_nan n"
  using unit_normal_range[of n] by (auto simp: normal_has_nan_def)

lemma sum_normal_hist_counts:
  assumes "\<forall>n\<in>set ncloud. unit_normal n"
  shows "sum_list (normal_hist_counts ncloud) = 3 * length ncloud"
proof -
  have rp: "read_points_normals ncloud = ncloud"
    using assms unit_normal_no_nan by (auto simp: read_points_normals_def filter_id_conv)
  have 1: "sum_list (np_histogram (map normal_x ncloud) 20 (-1, 1)) = length ncloud"
  proof -
    have "\<forall>v\<in>set (map normal_x ncloud). \<exists>q. v = Fin q \<and> -1 \<le> q \<and> q \<le> 1"
      using assms unit_normal_range by fastforce
    from sum_np_histogram_all[OF _ _ this, of 20] show ?thesis by simp
  qed
  have 2: "sum_list (np_histogram (map normal_y ncloud) 20 (-1, 1)) = length ncloud"
  proof -
    have "\<forall>v\<in>set (map normal_y ncloud). \<exists>q. v = Fin q \<and> -1 \<le> q \<and> q \<le> 1"
      using assms unit_normal_range by fastforce
    from sum_np_histogram_all[OF _ _ this, of 20] show ?thesis by simp
  qed
  have 3: "sum_list (np_histogram (map normal_z ncloud) 20 (-1, 1)) = length ncloud"
  proof -
    have "\<forall>v\<in>set (map normal_z ncloud). \<exists>q. v = Fin q \<and> -1 \<le> q \<and> q \<le> 1"
      using assms unit_normal_range by fastforce
    from sum_np_histogram_all[OF _ _ this, of 20] show ?thesis by simp
  qed
  show ?thesis unfolding normal_hist_counts_def Let_def rp sum_list_append 1 2 3 by simp
qed

text \<open>
  Claim C1.  For a non-empty cluster cloud whose points carry no NaN field, with one unit
  normal per point, the feature vector built by \<^verbatim>\<open>pcl_callback\<close> has 156 values: the
  first 96 are the three 32-bin equal-width histograms over [0, 256] of the three colour
  channels, the last 60 are the three 20-bin equal-width histograms over [-1, 1] of the
  normal components, each block divided by the sum of its own bins (three times the
  number of points), so that each block sums to 1.
\<close>

theorem cluster_feature_layout:
  assumes ne: "ros_cluster \<noteq> []"
    and nonan: "\<forall>p\<in>set ros_cluster. \<not> point_has_nan p"
    and len: "length (get_normals ros_cluster) = length ros_cluster"
    and unit: "\<forall>n\<in>set (get_normals ros_cluster). unit_normal n"
  shows "length (cluster_feature get_normals ros_cluster) = 156
     \<and> take 96 (cluster_feature get_normals ros_cluster) =
         map (\<lambda>c. Fin (of_nat c / of_nat (3 * length ros_cluster)))
           (case color_channels ros_cluster of (hs, ss, vs) \<Rightarrow>
              equal_width_histogram hs 32 0 256 @ equal_width_histogram ss 32 0 256
                @ equal_width_histogram vs 32 0 256)
     \<and> drop 96 (cluster_feature get_normals ros_cluster) =
         map (\<lambda>c. Fin (of_nat c / of_nat (3 * length ros_cluster)))
           (equal_width_histogram (map normal_x (get_normals ros_cluster)) 20 (-1) 1
              @ equal_width_histogram (map normal_y (get_normals ros_cluster)) 20 (-1) 1
              @ equal_width_histogram (map normal_z (get_normals ros_cluster)) 20 (-1) 1)
     \<and> np_sum (take 96 (cluster_feature get_normals ros_cluster)) = Fin 1
     \<and> np_sum (drop 96 (cluster_feature get_normals ros_cluster)) = Fin 1"
proof -
  let ?ns = "get_normals ros_cluster"
  let ?cc = "color_hist_counts ros_cluster True"
  let ?nc = "normal_hist_counts ?ns"
  have rp: "read_points ros_cluster = ros_cluster"
    using nonan by (simp add: read_points_def filter_id_conv)
  have rpn: "read_points_normals ?ns = ?ns"
    using unit unit_normal_no_nan by (auto simp: read_points_normals_def filter_id_conv)
  have N: "0 < length ros_cluster" using ne by simp
  have sc: "sum_list ?cc = 3 * length ros_cluster" by (simp add: sum_color_hist_counts rp)
  have sn: "sum_list ?nc = 3 * length ros_cluster" by (simp add: sum_normal_hist_counts[OF unit] len)
  have pc: "0 < sum_list ?cc" and pn: "0 < sum_list ?nc" using sc sn N by simp_all
  have f: "cluster_feature get_normals ros_cluster = normalize_hist ?cc @ normalize_hist ?nc"
    by (simp add: cluster_feature_def compute_color_histograms_def compute_normal_histograms_def Let_def)
  have lc: "length (normalize_hist ?cc) = 96"
    by (simp add: length_normalize_hist length_color_hist_counts)
  have ln: "length (normalize_hist ?nc) = 60"
    by (simp add: length_normalize_hist length_normal_hist_counts)
  have tk: "take 96 (cluster_feature get_normals ros_cluster) = normalize_hist ?cc"
    unfolding f using lc by simp
  have dr: "drop 96 (cluster_feature get_normals ros_cluster) = normalize_hist ?nc"
    unfolding f using lc by simp
  have cce: "?cc = (case color_channels ros_cluster of (hs, ss, vs) \<Rightarrow>
              equal_width_histogram hs 32 0 256 @ equal_width_histogram ss 32 0 256
                @ equal_width_histogram vs 32 0 256)"
    by (simp add: color_hist_counts_def color_channels_def Let_def rp np_histogram_equal_width)
  have nce: "?nc = equal_width_histogram (map normal_x ?ns) 20 (-1) 1
              @ equal_width_histogram (map normal_y ?ns) 20 (-1) 1
              @ equal_width_histogram (map normal_z ?ns) 20 (-1) 1"
    by (simp add: normal_hist_counts_def Let_def rpn np_histogram_equal_width)
  have 1: "length (cluster_feature get_normals ros_cluster) = 156"
    unfolding f using lc ln by simp
  have 2: "take 96 (cluster_feature get_normals ros_cluster) =
         map (\<lambda>c. Fin (of_nat c / of_nat (3 * length ros_cluster)))
           (case color_channels ros_cluster of (hs, ss, vs) \<Rightarrow>
              equal_width_histogram hs 32 0 256 @ equal_width_histogram ss 32 0 256
                @ equal_width_histogram vs 32 0 256)"
    unfolding tk normalize_hist_pos[OF pc] sc using cce by simp
  have 3: "drop 96 (cluster_feature get_normals ros_cluster) =
         map (\<lambda>c. Fin (of_nat c / of_nat (3 * length ros_cluster)))
           (equal_width_histogram (map normal_x ?ns) 20 (-1) 1
              @ equal_width_histogram (map normal_y ?ns) 20 (-1) 1
              @ equal_width_histogram (map normal_z ?ns) 20 (-1) 1)"
    unfolding dr normalize_hist_pos[OF pn] sn using nce by simp
  have 4: "np_sum (take 96 (cluster_feature get_normals ros_cluster)) = Fin 1"
    unfolding tk by (rule np_sum_normalize_hist[OF pc])
  have 5: "np_sum (drop 96 (cluster_feature get_normals ros_cluster)) = Fin 1"
    unfolding dr by (rule np_sum_normalize_hist[OF pn])
  from 1 2 3 4 5 show ?thesis by blast
qed

lemma red_point_no_nan: "\<not> point_has_nan red_point"
  by (simp add: point_has_nan_def red_point_def isnan32_def)

lemma up_normal_unit: "unit_normal up_normal"
  by (simp add: unit_normal_def up_normal_def)

text \<open>
  Witness for C1: a cluster of one red point with the normal (0, 0, 1).
\<close>

theorem cluster_feature_layout_witness:
  "[red_point] \<noteq> [] \<and> \<not> point_has_nan red_point \<and> unit_normal up_normal
   \<and> length (cluster_feature (\<lambda>c. map (\<lambda>p. up_normal) c) [red_point]) = 156
   \<and> np_sum (take 96 (cluster_feature (\<lambda>c. map (\<lambda>p. up_normal) c) [red_point])) = Fin 1
   \<and> np_sum (drop 96 (cluster_feature (\<lambda>c. map (\<lambda>p. up_normal) c) [red_point])) = Fin 1"
proof -
  let ?gn = "\<lambda>c :: point list. map (\<lambda>p. up_normal) c"
  have a: "[red_point] \<noteq> []" by simp
  have b: "\<forall>p\<in>set [red_point]. \<not> point_has_nan p" using red_point_no_nan by simp
  have c: "length (?gn [red_point]) = length [red_point]" by simp
  have d: "\<forall>n\<in>set (?gn [red_point]). unit_normal n" using up_normal_unit by simp
  note t = cluster_feature_layout[of "[red_point]" ?gn, OF a b c d]
  show ?thesis using t a red_point_no_nan up_normal_unit by blast
qed

lemma color_hist_counts_Nil: "color_hist_counts [] u = replicate 96 0"
  by (simp add: color_hist_counts_def read_points_def np_histogram_def replicate_add[symmetric])

lemma normal_hist_counts_Nil: "normal_hist_counts [] = replicate 60 0"
  by (simp add: normal_hist_counts_def read_points_normals_def np_histogram_def replicate_add[symmetric])

text \<open>
  Counterexample for C2.  The source has no guard and raises nothing: on a cluster with
  zero points every histogram is zero, the total is zero, and the division
  \<^verbatim>\<open>hist_features / np.sum(hist_features)\<close> yields NaN in every position.
\<close>

theorem empty_cluster_counterexample:
  "compute_color_histograms [] (Some True) = replicate 96 NaN
   \<and> compute_normal_histograms [] = replicate 60 NaN"
  by (simp add: compute_color_histograms_def compute_normal_histograms_def
      color_hist_counts_Nil normal_hist_counts_Nil normalize_hist_zero)

text \<open>
  Claim C2, amended.  Given a cluster with zero points, \<^verbatim>\<open>compute_color_histograms\<close>
  returns 96 NaN values (in either colour mode) and \<^verbatim>\<open>compute_normal_histograms\<close>
  returns 60 NaN values; the concatenated feature vector is 156 NaN values.  No error
  condition is raised.
\<close>

theorem empty_cluster_all_nan:
  "compute_color_histograms [] using_hsv = replicate 96 NaN
   \<and> compute_normal_histograms [] = replicate 60 NaN
   \<and> cluster_feature (\<lambda>c. []) [] = replicate 156 NaN"
  by (simp add: cluster_feature_def compute_color_histograms_def compute_normal_histograms_def
      color_hist_counts_Nil normal_hist_counts_Nil normalize_hist_zero replicate_add[symmetric])

lemma map_enumerate_snd:
  "map (\<lambda>item. case item of (index, pts_list) \<Rightarrow> f pts_list) (enumerate n xs) = map f xs"
  by (induction xs arbitrary: n) simp_all

text \<open>
  Claim C9.  Leaving out \<^verbatim>\<open>using_hsv\<close> is the same as passing \<^verbatim>\<open>using_hsv=True\<close>; in that
  mode the colour of a point is its RGB converted to HSV and multiplied by 255, and
  these are the values that are binned; and the recognition pipeline computes the colour
  histograms of every cluster with \<^verbatim>\<open>using_hsv=True\<close>: the label of each detected object is
  the classifier's answer on these histograms followed by the normal histograms.
\<close>

theorem using_hsv_default:
  "compute_color_histograms cloud None = compute_color_histograms cloud (Some True)
   \<and> point_color True pnt =
       (case rgb_to_hsv (float_to_rgb (pt_rgb pnt)) of (h, s, v) \<Rightarrow> (h * 255, s * 255, v * 255))
   \<and> compute_color_histograms cloud None =
       normalize_hist
         (let cols = map (point_color True) (read_points cloud)
          in np_histogram (map (\<lambda>c. Fin (fst c)) cols) 32 (0, 256)
             @ np_histogram (map (\<lambda>c. Fin (fst (snd c))) cols) 32 (0, 256)
             @ np_histogram (map (\<lambda>c. Fin (snd (snd c))) cols) 32 (0, 256))
   \<and> cluster_feature get_normals cloud =
       compute_color_histograms cloud (Some True) @ compute_normal_histograms (get_normals cloud)
   \<and> detected_objects (fst (pcl_callback_recognition get_normals classify gen trials eps color_list pcl_msg)) =
       map (\<lambda>pts_list.
              (classify (compute_color_histograms
                           (extract_indices (sc_objects (segment_scene trials eps pcl_msg)) pts_list False)
                           (Some True)
                         @ compute_normal_histograms
                             (get_normals (extract_indices (sc_objects (segment_scene trials eps pcl_msg))
                                pts_list False))),
               extract_indices (sc_objects (segment_scene trials eps pcl_msg)) pts_list False))
         (sc_clusters (segment_scene trials eps pcl_msg))"
proof -
  have e: "\<And>f xs. map (\<lambda>item. case item of (index, pts_list) \<Rightarrow> f pts_list) (enumerate 0 xs) = map f xs"
    by (rule map_enumerate_snd)
  have "detected_objects (fst (pcl_callback_recognition get_normals classify gen trials eps color_list pcl_msg)) =
       map (\<lambda>item. case item of (index, pts_list) \<Rightarrow>
              (classify (compute_color_histograms
                           (extract_indices (sc_objects (segment_scene trials eps pcl_msg)) pts_list False)
                           (Some True)
                         @ compute_normal_histograms
                             (get_normals (extract_indices (sc_objects (segment_scene trials eps pcl_msg))
                                pts_list False))),
               extract_indices (sc_objects (segment_scene trials eps pcl_msg)) pts_list False))
         (enumerate 0 (sc_clusters (segment_scene trials eps pcl_msg)))"
    by (simp add: pcl_callback_recognition_def detect_object_def cluster_feature_def Let_def
        pcl_to_ros_def case_prod_unfold)
  then show ?thesis
    unfolding e
    by (simp add: compute_color_histograms_def color_hist_counts_def point_color_def
        cluster_feature_def Let_def)
qed

lemma read_points_idem: "read_points (read_points cloud) = read_points cloud"
  by (simp add: read_points_def)

lemma read_points_normals_idem: "read_points_normals (read_points_normals nc) = read_points_normals nc"
  by (simp add: read_points_normals_def)

lemma sum_normal_hist_counts_le:
  "sum_list (normal_hist_counts nc) \<le> 3 * length (read_points_normals nc)"
proof -
  have le: "\<And>a. sum_list (np_histogram a 20 (-1, 1)) \<le> length a"
    by (subst sum_np_histogram) simp_all
  have "sum_list (normal_hist_counts nc) =
      sum_list (np_histogram (map normal_x (read_points_normals nc)) 20 (-1, 1))
    + sum_list (np_histogram (map normal_y (read_points_normals nc)) 20 (-1, 1))
    + sum_list (np_histogram (map normal_z (read_points_normals nc)) 20 (-1, 1))"
    by (simp add: normal_hist_counts_def Let_def)
  also have "\<dots> \<le> length (read_points_normals nc) + length (read_points_normals nc) + length (read_points_normals nc)"
    using le[of "map normal_x (read_points_normals nc)"] le[of "map normal_y (read_points_normals nc)"]
      le[of "map normal_z (read_points_normals nc)"] by simp
  finally show ?thesis by simp
qed

text \<open>
  Claim C10.  Both histogram functions read the cloud with \<^verbatim>\<open>skip_nans=True\<close>: their
  result is the result on the cloud without the points that have a NaN in a field that
  is read; the total of the colour histograms is three times the number of remaining
  points, and the total of the normal histograms is at most that; both functions return
  a vector of the fixed length on every input; and the total can count fewer points than
  the cloud holds (one of two points in the two examples).
\<close>

theorem skip_nans_excludes_points:
  "compute_color_histograms cloud using_hsv =
     compute_color_histograms (filter (\<lambda>p. \<not> point_has_nan p) cloud) using_hsv
   \<and> sum_list (color_hist_counts cloud (case using_hsv of None \<Rightarrow> True | Some b \<Rightarrow> b)) =
       3 * length (filter (\<lambda>p. \<not> point_has_nan p) cloud)
   \<and> compute_normal_histograms normal_cloud =
       compute_normal_histograms (filter (\<lambda>n. \<not> normal_has_nan n) normal_cloud)
   \<and> sum_list (normal_hist_counts normal_cloud) \<le>
       3 * length (filter (\<lambda>n. \<not> normal_has_nan n) normal_cloud)
   \<and> length (compute_color_histograms cloud using_hsv) = 96
   \<and> length (compute_normal_histograms normal_cloud) = 60
   \<and> sum_list (color_hist_counts [nan_point, red_point] True) = 3
   \<and> sum_list (normal_hist_counts [nan_normal, up_normal]) = 3"
proof -
  have 1: "compute_color_histograms cloud using_hsv =
     compute_color_histograms (filter (\<lambda>p. \<not> point_has_nan p) cloud) using_hsv"
    using read_points_idem[of cloud]
    by (simp add: compute_color_histograms_def color_hist_counts_def read_points_def)
  have 2: "sum_list (color_hist_counts cloud (case using_hsv of None \<Rightarrow> True | Some b \<Rightarrow> b)) =
       3 * length (filter (\<lambda>p. \<not> point_has_nan p) cloud)"
    by (simp add: sum_color_hist_counts read_points_def)
  have 3: "compute_normal_histograms normal_cloud =
       compute_normal_histograms (filter (\<lambda>n. \<not> normal_has_nan n) normal_cloud)"
    using read_points_normals_idem[of normal_cloud]
    by (simp add: compute_normal_histograms_def normal_hist_counts_def read_points_normals_def)
  have 4: "sum_list (normal_hist_counts normal_cloud) \<le>
       3 * length (filter (\<lambda>n. \<not> normal_has_nan n) normal_cloud)"
    using sum_normal_hist_counts_le[of normal_cloud] by (simp add: read_points_normals_def)
  have 5: "length (compute_color_histograms cloud using_hsv) = 96"
    by (simp add: compute_color_histograms_def length_normalize_hist length_color_hist_counts)
  have 6: "length (compute_normal_histograms normal_cloud) = 60"
    by (simp add: compute_normal_histograms_def length_normalize_hist length_normal_hist_counts)
  have 7: "sum_list (color_hist_counts [nan_point, red_point] True) = 3"
    by (simp add: sum_color_hist_counts read_points_def point_has_nan_def nan_point_def
        red_point_def isnan32_def)
  have "unit_normal up_normal" by (simp add: unit_normal_def up_normal_def)
  then have "sum_list (normal_hist_counts [up_normal]) = 3"
    using sum_normal_hist_counts[of "[up_normal]"] by simp
  moreover have "normal_hist_counts [nan_normal, up_normal] = normal_hist_counts [up_normal]"
    by (simp add: normal_hist_counts_def read_points_normals_def normal_has_nan_def
        nan_normal_def up_normal_def)
  ultimately have 8: "sum_list (normal_hist_counts [nan_normal, up_normal]) = 3" by simp
  from 1 2 3 4 5 6 7 8 show ?thesis by blast
qed

lemma radius_search_bound: "set (radius_search white_cloud r i) \<subseteq> {..<length white_cloud}"
  by (auto simp: radius_search_def)

lemma distinct_radius_search: "distinct (radius_search white_cloud r i)"
  by (simp add: radius_search_def)

lemma grow_invariant:
  assumes "grow white_cloud r queue visited cluster = (cluster', visited')"
    and "distinct cluster" and "set cluster \<subseteq> visited"
  shows "distinct cluster' \<and> visited \<subseteq> visited' \<and> set cluster' = set cluster \<union> (visited' - visited)
         \<and> visited' \<subseteq> visited \<union> {..<length white_cloud}"
  using assms
proof (induction white_cloud r queue visited cluster rule: grow.induct)
  case (1 white_cloud r visited cluster)
  then show ?case by auto
next
  case (2 white_cloud r q queue visited cluster)
  define new where "new = filter (\<lambda>j. j \<notin> visited) (radius_search white_cloud r q)"
  have g: "grow white_cloud r (queue @ new) (visited \<union> set new) (cluster @ new) = (cluster', visited')"
    using "2.prems"(1) by (simp add: new_def Let_def)
  have dn: "distinct new" by (simp add: new_def distinct_radius_search)
  have nv: "set new \<inter> visited = {}" by (auto simp: new_def)
  have nb: "set new \<subseteq> {..<length white_cloud}" using radius_search_bound by (auto simp: new_def)
  have d: "distinct (cluster @ new)" using "2.prems"(2,3) dn nv by auto
  have s: "set (cluster @ new) \<subseteq> visited \<union> set new" using "2.prems"(3) by auto
  from "2.IH"[OF new_def g d s]
  have ih: "distinct cluster'" "visited \<union> set new \<subseteq> visited'"
    "set cluster' = set (cluster @ new) \<union> (visited' - (visited \<union> set new))"
    "visited' \<subseteq> visited \<union> set new \<union> {..<length white_cloud}" by auto
  show ?case using ih nv nb by auto
qed

lemma cluster_step_ok:
  assumes "clusters_ok (length white_cloud) m_min m_max st" and "i < length white_cloud"
  shows "clusters_ok (length white_cloud) m_min m_max (cluster_step white_cloud r m_min m_max i st)"
proof -
  obtain clusters visited where st: "st = (clusters, visited)" by (cases st)
  from assms(1) have inv: "distinct (concat clusters)" "set (concat clusters) \<subseteq> visited"
    "visited \<subseteq> {..<length white_cloud}" "list_all (\<lambda>c. m_min \<le> length c \<and> length c \<le> m_max) clusters"
    by (auto simp: clusters_ok_def st)
  show ?thesis
  proof (cases "i \<in> visited")
    case True
    then show ?thesis using assms(1) by (simp add: cluster_step_def st)
  next
    case False
    obtain cl vis' where g: "grow white_cloud r [i] (insert i visited) [i] = (cl, vis')"
      by (cases "grow white_cloud r [i] (insert i visited) [i]")
    from grow_invariant[OF g] have gi: "distinct cl" "insert i visited \<subseteq> vis'"
      "set cl = {i} \<union> (vis' - insert i visited)" "vis' \<subseteq> insert i visited \<union> {..<length white_cloud}"
      by auto
    have disj: "set cl \<inter> visited = {}" using gi(3) False by auto
    have vb: "vis' \<subseteq> {..<length white_cloud}" using gi(4) inv(3) assms(2) by auto
    have cv: "set cl \<subseteq> vis'" using gi(2,3) by auto
    have old: "set (concat clusters) \<subseteq> vis'" using inv(2) gi(2) by auto
    have dc: "distinct (concat (clusters @ [cl]))"
      using inv(1,2) gi(1) disj by auto
    show ?thesis
      using False g inv dc cv old vb
      by (auto simp: cluster_step_def st clusters_ok_def)
  qed
qed

lemma fold_cluster_step_ok:
  assumes "clusters_ok (length white_cloud) m_min m_max st" and "set is \<subseteq> {..<length white_cloud}"
  shows "clusters_ok (length white_cloud) m_min m_max (fold (cluster_step white_cloud r m_min m_max) is st)"
  using assms
proof (induction "is" arbitrary: st)
  case Nil then show ?case by simp
next
  case (Cons i "is")
  then show ?case using cluster_step_ok[of white_cloud m_min m_max st i r] by simp
qed

lemma euclidean_cluster_extract_ok:
  "clusters_ok (length white_cloud) m_min m_max
     (fold (cluster_step white_cloud r m_min m_max) [0..<length white_cloud] ([], {}))"
  by (rule fold_cluster_step_ok) (auto simp: clusters_ok_def)

lemma distinct_concat_disjoint:
  assumes "distinct (concat xss)" "j < length xss" "k < length xss" "j \<noteq> k"
  shows "set (xss ! j) \<inter> set (xss ! k) = {}"
  using assms
proof (induction xss arbitrary: j k)
  case Nil then show ?case by simp
next
  case (Cons x xs)
  from Cons.prems(1) have d: "distinct (concat xs)" and x: "set x \<inter> set (concat xs) = {}"
    by auto
  show ?case
  proof (cases j)
    case 0
    then obtain k' where k: "k = Suc k'" using Cons.prems(4) by (cases k) auto
    then have "xs ! k' \<in> set xs" using Cons.prems(3) by simp
    then have "set (xs ! k') \<subseteq> set (concat xs)" by auto
    then show ?thesis using x 0 k by auto
  next
    case (Suc j')
    show ?thesis
    proof (cases k)
      case 0
      have "xs ! j' \<in> set xs" using Cons.prems(2) Suc by simp
      then have "set (xs ! j') \<subseteq> set (concat xs)" by auto
      then show ?thesis using x 0 Suc by auto
    next
      case (Suc k')
      then show ?thesis using Cons.IH[OF d, of j' k'] Cons.prems \<open>j = Suc j'\<close> by simp
    qed
  qed
qed

lemma clusters_invariant:
  "distinct (concat (euclidean_cluster_extract white_cloud r m_min m_max))
   \<and> set (concat (euclidean_cluster_extract white_cloud r m_min m_max)) \<subseteq> {..<length white_cloud}
   \<and> list_all (\<lambda>c. m_min \<le> length c \<and> length c \<le> m_max)
        (euclidean_cluster_extract white_cloud r m_min m_max)
   \<and> list_all (\<lambda>j. list_all (\<lambda>k. j = k \<or>
          set (euclidean_cluster_extract white_cloud r m_min m_max ! j)
            \<inter> set (euclidean_cluster_extract white_cloud r m_min m_max ! k) = {})
        [0..<length (euclidean_cluster_extract white_cloud r m_min m_max)])
      [0..<length (euclidean_cluster_extract white_cloud r m_min m_max)]"
proof -
  let ?cs = "euclidean_cluster_extract white_cloud r m_min m_max"
  obtain vis where f: "fold (cluster_step white_cloud r m_min m_max) [0..<length white_cloud] ([], {}) = (?cs, vis)"
    by (cases "fold (cluster_step white_cloud r m_min m_max) [0..<length white_cloud] ([], {})")
       (simp add: euclidean_cluster_extract_def)
  from euclidean_cluster_extract_ok[of white_cloud m_min m_max r]
  have ok: "distinct (concat ?cs)" "set (concat ?cs) \<subseteq> vis" "vis \<subseteq> {..<length white_cloud}"
    "list_all (\<lambda>c. m_min \<le> length c \<and> length c \<le> m_max) ?cs"
    unfolding f by (auto simp: clusters_ok_def)
  have pair: "\<And>j k. j < length ?cs \<Longrightarrow> k < length ?cs \<Longrightarrow> j \<noteq> k \<Longrightarrow> set (?cs ! j) \<inter> set (?cs ! k) = {}"
    using ok(1) by (rule distinct_concat_disjoint)
  have 4: "list_all (\<lambda>j. list_all (\<lambda>k. j = k \<or> set (?cs ! j) \<inter> set (?cs ! k) = {})
        [0..<length ?cs]) [0..<length ?cs]"
    unfolding list_all_iff using pair by (metis atLeastLessThan_iff set_upt)
  from ok 4 show ?thesis by blast
qed

lemma two_pairs_clusters: "euclidean_cluster_extract two_pairs (1 / 50) 2 5 = [[0, 1], [2, 3]]"
  by code_simp






lemma row_clusters: "sc_clusters (segment_scene [] 0 row_frame) = [[0, 1, 2, 3, 4, 5, 6, 7, 8, 9]]"
  by code_simp

lemma collinear_scene: "segment_scene [(0, 1, 2), (2, 0, 1)] 0 collinear_frame =
   \<lparr>sc_table = [], sc_objects = collinear_frame, sc_white = XYZRGB_to_XYZ collinear_frame, sc_clusters = []\<rparr>"
  by code_simp

lemma collinear_no_model:
  "ransac (passthrough_filter AxisZ (77 / 100) (11 / 10) (voxel_grid_filter (1 / 100) (ros_to_pcl collinear_frame)))
     (1 / 100) 0 [(0, 1, 2), (2, 0, 1)] None = None"
  by code_simp

lemma scene_clusters:
  "sc_clusters (segment_scene trials eps pcl_msg) =
     euclidean_cluster_extract (XYZRGB_to_XYZ (sc_objects (segment_scene trials eps pcl_msg))) (2 / 100) 10 2000"
  by (simp add: segment_scene_def Let_def)

text \<open>
  Claim C3.  For every cloud, radius and size bounds, the clusterer returns index lists
  without repetition that are pairwise disjoint, each of size in [m_min, m_max] and each
  within the indices of the cloud; clusters outside the size bounds are simply absent
  from the result.  In particular the clusters of a frame (radius 0.02, sizes 10 to 2000)
  are disjoint lists of 10 to 2000 indices of the objects cloud.
\<close>

theorem clusters_disjoint_bounded:
  fixes white_cloud r m_min m_max trials eps pcl_msg
  defines "cs \<equiv> euclidean_cluster_extract white_cloud r m_min m_max"
    and "sc \<equiv> segment_scene trials eps pcl_msg"
  shows "(\<forall>c\<in>set cs. m_min \<le> length c \<and> length c \<le> m_max \<and> distinct c
            \<and> set c \<subseteq> {..<length white_cloud})
       \<and> (\<forall>j<length cs. \<forall>k<length cs. j \<noteq> k \<longrightarrow> set (cs ! j) \<inter> set (cs ! k) = {})
       \<and> distinct (concat cs)
       \<and> (\<forall>c\<in>set (sc_clusters sc). 10 \<le> length c \<and> length c \<le> 2000
            \<and> set c \<subseteq> {..<length (sc_objects sc)})
       \<and> distinct (concat (sc_clusters sc))"
proof -
  have gen: "\<And>wc rr mi ma. distinct (concat (euclidean_cluster_extract wc rr mi ma))
      \<and> set (concat (euclidean_cluster_extract wc rr mi ma)) \<subseteq> {..<length wc}
      \<and> list_all (\<lambda>c. mi \<le> length c \<and> length c \<le> ma) (euclidean_cluster_extract wc rr mi ma)"
    using clusters_invariant by blast
  have 1: "\<forall>c\<in>set cs. m_min \<le> length c \<and> length c \<le> m_max \<and> distinct c
            \<and> set c \<subseteq> {..<length white_cloud}"
    using gen[of white_cloud r m_min m_max] unfolding cs_def list_all_iff
    by (auto simp: distinct_concat_iff)
  have 2: "\<forall>j<length cs. \<forall>k<length cs. j \<noteq> k \<longrightarrow> set (cs ! j) \<inter> set (cs ! k) = {}"
    using gen[of white_cloud r m_min m_max] distinct_concat_disjoint unfolding cs_def by blast
  have 3: "distinct (concat cs)" using gen[of white_cloud r m_min m_max] unfolding cs_def by blast
  have l: "length (XYZRGB_to_XYZ (sc_objects sc)) = length (sc_objects sc)"
    by (simp add: XYZRGB_to_XYZ_def)
  have 4: "\<forall>c\<in>set (sc_clusters sc). 10 \<le> length c \<and> length c \<le> 2000
            \<and> set c \<subseteq> {..<length (sc_objects sc)}"
    using gen[of "XYZRGB_to_XYZ (sc_objects sc)" "2 / 100" 10 2000]
    unfolding sc_def scene_clusters[symmetric] l[unfolded sc_def] list_all_iff by auto
  have 5: "distinct (concat (sc_clusters sc))"
    using gen[of "XYZRGB_to_XYZ (sc_objects sc)" "2 / 100" 10 2000]
    unfolding sc_def scene_clusters[symmetric] by blast
  from 1 2 3 4 5 show ?thesis by blast
qed

text \<open>
  Witness for C3: two pairs of neighbours and an isolated point, with sizes 2 to 5; the
  two pairs are the clusters and the isolated point is dropped.
\<close>

theorem clusters_disjoint_bounded_witness:
  "euclidean_cluster_extract two_pairs (1 / 50) 2 5 = [[0, 1], [2, 3]]
   \<and> 2 \<le> length (euclidean_cluster_extract two_pairs (1 / 50) 2 5 ! 0)
   \<and> length (euclidean_cluster_extract two_pairs (1 / 50) 2 5 ! 0) \<le> 5
   \<and> set (euclidean_cluster_extract two_pairs (1 / 50) 2 5 ! 0)
       \<inter> set (euclidean_cluster_extract two_pairs (1 / 50) 2 5 ! 1) = {}"
proof -
  let ?cs = "euclidean_cluster_extract two_pairs (1 / 50) 2 5"
  have e: "?cs = [[0, 1], [2, 3]]" by (rule two_pairs_clusters)
  note t = clusters_disjoint_bounded[of two_pairs "1 / 50" 2 5 "[]" 0 "[]"]
  have m: "?cs ! 0 \<in> set ?cs" by (simp add: e)
  from t m have b: "2 \<le> length (?cs ! 0) \<and> length (?cs ! 0) \<le> 5" by blast
  have "(0::nat) < length ?cs" "(1::nat) < length ?cs" "(0::nat) \<noteq> 1" by (simp_all add: e)
  with t have d: "set (?cs ! 0) \<inter> set (?cs ! 1) = {}" by blast
  from e b d show ?thesis by blast
qed




lemma get_color_list_prefix:
  "take (length color_list) (get_color_list gen n color_list) = color_list
   \<and> length (get_color_list gen n color_list) = max (length color_list) n"
  by (auto simp: get_color_list_def)

text \<open>
  Claim C5, amended.  What \<^verbatim>\<open>pcl_callback\<close> publishes as objects and as table is a function
  of the frame and the draws of the segmenter alone.  The cluster cloud it publishes also
  depends on the process-wide list \<^verbatim>\<open>get_color_list.color_list\<close>, which the callback reads
  and extends: after the call the list starts with its old entries and is as long as
  the larger of its old length and the number of clusters.  Both scripts keep this state
  across frames.
\<close>

theorem callback_reads_color_list:
  fixes gen trials eps color_list pcl_msg
  defines "sc \<equiv> segment_scene trials eps pcl_msg"
    and "res \<equiv> pcl_callback gen trials eps color_list pcl_msg"
  shows "snd res = get_color_list gen (length (sc_clusters sc)) color_list
       \<and> take (length color_list) (snd res) = color_list
       \<and> length (snd res) = max (length color_list) (length (sc_clusters sc))
       \<and> pcl_objects (fst res) = sc_objects sc
       \<and> pcl_table (fst res) = sc_table sc
       \<and> pcl_cluster (fst res) = color_cluster_points (sc_white sc) (sc_clusters sc) (snd res)
       \<and> snd (pcl_callback_recognition get_normals classify gen trials eps color_list pcl_msg) = snd res"
proof -
  have 1: "snd res = get_color_list gen (length (sc_clusters sc)) color_list"
    by (simp add: res_def sc_def pcl_callback_def Let_def)
  have 2: "take (length color_list) (snd res) = color_list"
    and 3: "length (snd res) = max (length color_list) (length (sc_clusters sc))"
    unfolding 1 using get_color_list_prefix by blast+
  have 4: "pcl_objects (fst res) = sc_objects sc" and 5: "pcl_table (fst res) = sc_table sc"
    by (simp_all add: res_def sc_def pcl_callback_def Let_def pcl_to_ros_def)
  have 6: "pcl_cluster (fst res) = color_cluster_points (sc_white sc) (sc_clusters sc) (snd res)"
    by (simp add: res_def sc_def pcl_callback_def Let_def pcl_to_ros_def)
  have 7: "snd (pcl_callback_recognition get_normals classify gen trials eps color_list pcl_msg) = snd res"
    by (simp add: res_def pcl_callback_def pcl_callback_recognition_def Let_def)
  from 1 2 3 4 5 6 7 show ?thesis by blast
qed

lemma row_cluster_cloud:
  "pt_rgb (hd (pcl_cluster (fst (pcl_callback gen [] 0 [c] row_frame)))) = rgb_to_float c"
proof -
  have "pcl_cluster (fst (pcl_callback gen [] 0 [c] row_frame)) =
      color_cluster_points (sc_white (segment_scene [] 0 row_frame)) [[0, 1, 2, 3, 4, 5, 6, 7, 8, 9]] [c]"
    by (simp add: pcl_callback_def Let_def pcl_to_ros_def row_clusters get_color_list_def)
  then show ?thesis by (simp add: color_cluster_points_def)
qed

text \<open>
  Counterexample for C5.  The same frame, with the same parameters, gives two different
  published cluster clouds under two values of the process-wide list
  \<^verbatim>\<open>get_color_list.color_list\<close>; and a call that starts with the empty list leaves a
  list of one colour behind for the next frame.
\<close>

theorem color_list_state_counterexample:
  "pcl_cluster (fst (pcl_callback (\<lambda>i. (i, i, i)) [] 0 [(255, 0, 0)] row_frame))
     \<noteq> pcl_cluster (fst (pcl_callback (\<lambda>i. (i, i, i)) [] 0 [(0, 0, 255)] row_frame))
   \<and> snd (pcl_callback (\<lambda>i. (i, i, i)) [] 0 [] row_frame) = [(0, 0, 0)]"
proof -
  have a: "rgb_to_float (255, 0, 0) \<noteq> rgb_to_float (0, 0, 255)"
    by (simp add: rgb_to_float_def)
  have "pt_rgb (hd (pcl_cluster (fst (pcl_callback (\<lambda>i. (i, i, i)) [] 0 [(255, 0, 0)] row_frame))))
      \<noteq> pt_rgb (hd (pcl_cluster (fst (pcl_callback (\<lambda>i. (i, i, i)) [] 0 [(0, 0, 255)] row_frame))))"
    unfolding row_cluster_cloud using a .
  then have 1: "pcl_cluster (fst (pcl_callback (\<lambda>i. (i, i, i)) [] 0 [(255, 0, 0)] row_frame))
     \<noteq> pcl_cluster (fst (pcl_callback (\<lambda>i. (i, i, i)) [] 0 [(0, 0, 255)] row_frame))"
    by auto
  have 2: "snd (pcl_callback (\<lambda>i. (i, i, i)) [] 0 [] row_frame) = [(0, 0, 0)]"
    by (simp add: pcl_callback_def Let_def row_clusters get_color_list_def)
  from 1 2 show ?thesis by blast
qed

text \<open>
  Counterexample for C6.  For a frame of three collinear points no trial yields a plane,
  yet the callback does not fail or skip the frame: it publishes an empty table cloud and
  all three points as the objects cloud.
\<close>

theorem no_model_counterexample:
  "ransac (passthrough_filter AxisZ (77 / 100) (11 / 10) (voxel_grid_filter (1 / 100) (ros_to_pcl collinear_frame)))
     (1 / 100) 0 [(0, 1, 2), (2, 0, 1)] None = None
   \<and> fst (pcl_callback_recognition (\<lambda>c. []) (\<lambda>f. ''object'') (\<lambda>i. (i, i, i))
            [(0, 1, 2), (2, 0, 1)] 0 [] collinear_frame)
       = \<lparr>pcl_objects = collinear_frame, pcl_table = [], pcl_cluster = [],
          object_markers = [], detected_objects = []\<rparr>"
proof -
  have "fst (pcl_callback_recognition (\<lambda>c. []) (\<lambda>f. ''object'') (\<lambda>i. (i, i, i))
            [(0, 1, 2), (2, 0, 1)] 0 [] collinear_frame)
       = \<lparr>pcl_objects = collinear_frame, pcl_table = [], pcl_cluster = [],
          object_markers = [], detected_objects = []\<rparr>"
    unfolding pcl_callback_recognition_def Let_def collinear_scene
    by (simp add: pcl_to_ros_def color_cluster_points_def get_color_list_def)
  with collinear_no_model show ?thesis by blast
qed

text \<open>
  Claim C6, amended.  When plane fitting finds no model in a frame, \<^verbatim>\<open>seg.segment()\<close>
  returns no inliers and no coefficients, and \<^verbatim>\<open>pcl_callback\<close>, which makes no check,
  goes on: it publishes an empty table cloud and the whole cropped cloud as the objects
  cloud.  No error condition exists and no frame is skipped.
\<close>

theorem no_model_still_publishes:
  fixes get_normals classify gen trials eps color_list pcl_msg
  defines "cropped \<equiv> passthrough_filter AxisZ (77 / 100) (11 / 10)
                       (voxel_grid_filter (1 / 100) (ros_to_pcl pcl_msg))"
    and "res \<equiv> fst (pcl_callback_recognition get_normals classify gen trials eps color_list pcl_msg)"
  assumes none: "ransac cropped (1 / 100) eps trials None = None"
  shows "segment cropped (1 / 100) eps trials = ([], [])
       \<and> pcl_table res = []
       \<and> pcl_objects res = cropped
       \<and> pcl_table (fst (pcl_callback gen trials eps color_list pcl_msg)) = []
       \<and> pcl_objects (fst (pcl_callback gen trials eps color_list pcl_msg)) = cropped"
proof -
  have s: "segment cropped (1 / 100) eps trials = ([], [])" using none by (simp add: segment_def)
  have e: "extract_indices cropped [] False = []" "extract_indices cropped [] True = cropped"
    by (simp_all add: extract_indices_def map_nth)
  have sc: "sc_table (segment_scene trials eps pcl_msg) = []"
    "sc_objects (segment_scene trials eps pcl_msg) = cropped"
    using s e by (simp_all add: segment_scene_def Let_def cropped_def)
  have "pcl_table res = []" "pcl_objects res = cropped"
    "pcl_table (fst (pcl_callback gen trials eps color_list pcl_msg)) = []"
    "pcl_objects (fst (pcl_callback gen trials eps color_list pcl_msg)) = cropped"
    using sc by (simp_all add: res_def pcl_callback_recognition_def pcl_callback_def Let_def pcl_to_ros_def)
  with s show ?thesis by blast
qed

text \<open>
  Witness for C6: the frame of three collinear points.
\<close>

theorem no_model_still_publishes_witness:
  "ransac (passthrough_filter AxisZ (77 / 100) (11 / 10) (voxel_grid_filter (1 / 100) (ros_to_pcl collinear_frame)))
     (1 / 100) 0 [(0, 1, 2), (2, 0, 1)] None = None
   \<and> pcl_table (fst (pcl_callback (\<lambda>i. (i, i, i)) [(0, 1, 2), (2, 0, 1)] 0 [] collinear_frame)) = []"
  using no_model_still_publishes[OF collinear_no_model, of "\<lambda>c. []" "\<lambda>f. ''object''" "\<lambda>i. (i, i, i)" "[]"]
    collinear_no_model by blast

end
